theory Spec2Isabelle
  imports Complex_Main
begin

section \<open>The slide deck controller of script.js\<close>

text \<open>
  The controller is a JavaScript class over the DOM. The model keeps the part of the
  DOM that the class reads and writes as a record, and the object's own fields beside
  it. Slide numbers and screen coordinates are integers. A method that would raise a
  \<^verbatim>\<open>TypeError\<close> (a property read on \<^verbatim>\<open>undefined\<close>) returns \<open>Inl TypeError\<close>;
  the partly written DOM is not carried by the error value.
\<close>

subsection \<open>Values of the host language\<close>

datatype error = TypeError

text \<open>
  A JavaScript number that results from arithmetic: a finite double, an infinity or NaN.
  \<open>Num m e\<close> is the IEEE-754 binary64 value \<open>m * 2 ^ e\<close>, kept in the format's own
  form: \<open>2 ^ 52 \<le> \<bar>m\<bar> < 2 ^ 53\<close> and \<open>- 1074 \<le> e \<le> 971\<close> for a normal number,
  \<open>\<bar>m\<bar> < 2 ^ 52\<close> and \<open>e = - 1074\<close> for a subnormal one, \<open>Num 0 0\<close> for zero (the sign of
  zero is not kept).
\<close>

datatype jsnum = Num int int | PosInfinity | NegInfinity | NaN

definition num_value :: "int \<Rightarrow> int \<Rightarrow> rat" where
  "num_value m e = (if e \<ge> 0 then of_int m * 2 ^ nat e else of_int m / 2 ^ nat (- e))"

text \<open>The number of binary digits of a positive integer.\<close>

function binary_digits :: "int \<Rightarrow> nat" where
  "binary_digits n = (if n \<le> 0 then 0 else Suc (binary_digits (n div 2)))"
  by pat_completeness auto
termination
  by (relation "measure nat") auto

declare binary_digits.simps [simp del]

text \<open>The integer nearest to \<open>a / b\<close> for \<open>b > 0\<close>, the even one of two that are equally near.\<close>

definition round_half_even :: "int \<Rightarrow> int \<Rightarrow> int" where
  "round_half_even a b =
     (let d = a div b; r = a mod b in
      if 2 * r < b then d
      else if 2 * r > b then d + 1
      else if even d then d else d + 1)"

text \<open>
  The double nearest to \<open>p / q * 2 ^ s\<close> for \<open>q > 0\<close>, rounding to nearest with ties to
  even, as every arithmetic operation of the language rounds its exact result: \<open>lg\<close> is
  the binary exponent of \<open>\<bar>p\<bar> / q\<close>, \<open>qe\<close> the exponent of the last place of the result
  (never below the subnormal one), \<open>m\<close> the rounded significand. A significand that
  rounds up to \<open>2 ^ 53\<close> moves to the next exponent, and a result beyond the largest
  double is an infinity.
\<close>

definition round_double :: "int \<Rightarrow> int \<Rightarrow> int \<Rightarrow> jsnum" where
  "round_double p q s =
     (if p = 0 then Num 0 0
      else
        let a = \<bar>p\<bar>;
            l = int (binary_digits a) - int (binary_digits q);
            lg = (if q * 2 ^ nat l \<le> a * 2 ^ nat (- l) then l else l - 1);
            qe = max (lg + s - 52) (- 1074);
            t = s - qe;
            m = round_half_even (a * 2 ^ nat t) (q * 2 ^ nat (- t));
            m' = (if m = 2 ^ 53 then 2 ^ 52 else m);
            qe' = (if m = 2 ^ 53 then qe + 1 else qe)
        in if qe' > 971 then (if p > 0 then PosInfinity else NegInfinity)
           else if m' = 0 then Num 0 0
           else Num (sgn p * m') qe')"

text \<open>
  \<^verbatim>\<open>a / b\<close> for two numbers that hold integers (of magnitude below \<open>2 ^ 53\<close>, so that
  they are doubles exactly), and \<^verbatim>\<open>x * n\<close> for a number and such an integer.
\<close>

definition js_div :: "int \<Rightarrow> int \<Rightarrow> jsnum" where
  "js_div a b =
     (if b > 0 then round_double a b 0
      else if b < 0 then round_double (- a) (- b) 0
      else if a > 0 then PosInfinity
      else if a < 0 then NegInfinity
      else NaN)"

definition js_mul :: "jsnum \<Rightarrow> int \<Rightarrow> jsnum" where
  "js_mul x n =
     (case x of
        Num m e \<Rightarrow> round_double (m * n) 1 e
      | PosInfinity \<Rightarrow> (if n > 0 then PosInfinity else if n < 0 then NegInfinity else NaN)
      | NegInfinity \<Rightarrow> (if n > 0 then NegInfinity else if n < 0 then PosInfinity else NaN)
      | NaN \<Rightarrow> NaN)"

text \<open>The decimal rendering of an integer, as a template literal produces it.\<close>

definition digit_char :: "nat \<Rightarrow> char" where
  "digit_char d = ''0123456789'' ! d"

fun string_of_nat :: "nat \<Rightarrow> string" where
  "string_of_nat n =
     (if n < 10 then [digit_char n]
      else string_of_nat (n div 10) @ [digit_char (n mod 10)])"

declare string_of_nat.simps [simp del]

definition js_toString :: "int \<Rightarrow> string" where
  "js_toString i =
     (if i < 0 then ''-'' @ string_of_nat (nat (- i)) else string_of_nat (nat i))"

text \<open>
  \<^verbatim>\<open>xs[i]\<close> on an array-like collection: the element when \<open>i\<close> is an index of the
  collection, \<^verbatim>\<open>undefined\<close> (here \<open>None\<close>) otherwise.
\<close>

definition item :: "'a list \<Rightarrow> int \<Rightarrow> 'a option" where
  "item xs i = (if 0 \<le> i \<and> i < int (length xs) then Some (xs ! nat i) else None)"

subsection \<open>The document and the controller's state\<close>

text \<open>
  A slide element: the two classes the controller toggles (\<^verbatim>\<open>active\<close> and
  \<^verbatim>\<open>exit-left\<close>), and the text of its first \<^verbatim>\<open>.slide-title, .main-title\<close>
  descendant, \<open>None\<close> when \<^verbatim>\<open>querySelector\<close> finds none.
\<close>

record slide =
  active :: bool
  exit_left :: bool
  slide_title :: "string option"

record button =
  disabled :: bool
  opacity :: string

text \<open>
  The elements the constructor looks up. \<open>progressBar\<close> holds the double written before
  the percent sign of \<^verbatim>\<open>style.width\<close> (the template literal renders it in decimal, and
  different doubles render differently); \<open>slideCounter\<close> is the counter's
  \<^verbatim>\<open>textContent\<close>; \<open>title\<close> is \<^verbatim>\<open>document.title\<close>.
\<close>

record dom =
  slides :: "slide list"
  prevBtn :: button
  nextBtn :: button
  slideCounter :: string
  progressBar :: jsnum
  title :: string

text \<open>
  The object: the document it holds, its two fields, and the callbacks that
  \<^verbatim>\<open>setTimeout\<close> has scheduled and not yet run, oldest first. Every callback is
  scheduled with the same delay, so they run in the order of scheduling. A callback is
  the closure of \<open>goToSlide\<close> for a slide number; the slide collection is never
  reassigned, so the target element it captured is the one at that number's position.
\<close>

record deck = dom +
  currentSlide :: int
  totalSlides :: int
  timers :: "int list"

subsection \<open>Projection of the state onto the document\<close>

definition updateButtonStates :: "deck \<Rightarrow> deck" where
  "updateButtonStates s =
     (let s1 = (if currentSlide s = 1
                then s\<lparr>prevBtn := \<lparr>disabled = True, opacity = ''0.3''\<rparr>\<rparr>
                else s\<lparr>prevBtn := \<lparr>disabled = False, opacity = ''1''\<rparr>\<rparr>)
      in if currentSlide s1 = totalSlides s1
         then s1\<lparr>nextBtn := \<lparr>disabled = True, opacity = ''0.3''\<rparr>\<rparr>
         else s1\<lparr>nextBtn := \<lparr>disabled = False, opacity = ''1''\<rparr>\<rparr>)"

definition updateUI :: "deck \<Rightarrow> error + deck" where
  "updateUI s =
     (let s1 = s\<lparr>slideCounter := js_toString (currentSlide s) @ '' / '' @ js_toString (totalSlides s)\<rparr>;
          progressPercentage = js_mul (js_div (currentSlide s1) (totalSlides s1)) 100;
          s2 = s1\<lparr>progressBar := progressPercentage\<rparr>;
          s3 = updateButtonStates s2
      in case item (slides s3) (currentSlide s3 - 1) of
           None \<Rightarrow> Inl TypeError
         | Some currentSlideElement \<Rightarrow>
             (case slide_title currentSlideElement of
                None \<Rightarrow> Inr s3
              | Some slideTitle \<Rightarrow>
                  Inr (s3\<lparr>title := slideTitle @ '' - GMC Acadia Korea Market''\<rparr>)))"

subsection \<open>Construction\<close>

definition SlideDeck :: "dom \<Rightarrow> error + deck" where
  "SlideDeck d =
     updateUI \<lparr>slides = slides d, prevBtn = prevBtn d, nextBtn = nextBtn d,
               slideCounter = slideCounter d, progressBar = progressBar d, title = title d,
               currentSlide = 1, totalSlides = int (length (slides d)), timers = []\<rparr>"

subsection \<open>Navigation\<close>

text \<open>
  \<open>goToSlide\<close> is the part of the method that runs at the call: the guard, the exit
  treatment of the slide being left, and the scheduling of the callback. \<open>commit\<close> is
  the body of the callback.
\<close>

definition goToSlide :: "int \<Rightarrow> deck \<Rightarrow> error + deck" where
  "goToSlide slideNumber s =
     (if slideNumber < 1 \<or> slideNumber > totalSlides s then Inr s
      else
        let forward = (slideNumber > currentSlide s) in
        case item (slides s) (currentSlide s - 1) of
          None \<Rightarrow> Inl TypeError
        | Some currentSlideElement \<Rightarrow>
            let e1 = currentSlideElement\<lparr>active := False\<rparr>;
                e2 = (if forward then e1\<lparr>exit_left := True\<rparr> else e1)
            in Inr (s\<lparr>slides := (slides s)[nat (currentSlide s - 1) := e2],
                      timers := timers s @ [slideNumber]\<rparr>))"

definition commit :: "int \<Rightarrow> deck \<Rightarrow> error + deck" where
  "commit slideNumber s =
     (let reset = map (\<lambda>sl. sl\<lparr>active := False, exit_left := False\<rparr>) (slides s) in
      case item reset (slideNumber - 1) of
        None \<Rightarrow> Inl TypeError
      | Some targetSlideElement \<Rightarrow>
          updateUI (s\<lparr>slides := reset[nat (slideNumber - 1) := targetSlideElement\<lparr>active := True\<rparr>],
                      currentSlide := slideNumber\<rparr>))"

definition nextSlide :: "deck \<Rightarrow> error + deck" where
  "nextSlide s =
     (if currentSlide s < totalSlides s then goToSlide (currentSlide s + 1) s else Inr s)"

definition previousSlide :: "deck \<Rightarrow> error + deck" where
  "previousSlide s =
     (if currentSlide s > 1 then goToSlide (currentSlide s - 1) s else Inr s)"

definition handleSwipe :: "int \<Rightarrow> int \<Rightarrow> deck \<Rightarrow> error + deck" where
  "handleSwipe startX endX s =
     (let swipeThreshold = 50; difference = startX - endX in
      if \<bar>difference\<bar> > swipeThreshold
      then (if difference > 0 then nextSlide s else previousSlide s)
      else Inr s)"

subsection \<open>Events\<close>

text \<open>
  What can happen to a constructed deck: a call of one of its navigation methods (from
  a button, or through the global handle), a key press, a swipe, or the run of the
  oldest scheduled callback. A swipe is the \<^verbatim>\<open>touchend\<close> handler, called with the
  coordinate the \<^verbatim>\<open>touchstart\<close> handler stored. The help listener for the key
  \<^verbatim>\<open>?\<close> shows an alert and changes nothing, as every key the switch does not name.
\<close>

datatype event =
    NextSlide
  | PreviousSlide
  | GoToSlide int
  | HandleSwipe int int
  | KeyDown string
  | Timeout

definition keydown :: "string \<Rightarrow> deck \<Rightarrow> error + deck" where
  "keydown k s =
     (if k = ''ArrowRight'' \<or> k = ''PageDown'' \<or> k = '' '' then nextSlide s
      else if k = ''ArrowLeft'' \<or> k = ''PageUp'' then previousSlide s
      else if k = ''Home'' then goToSlide 1 s
      else if k = ''End'' then goToSlide (totalSlides s) s
      else Inr s)"

definition timeout :: "deck \<Rightarrow> error + deck" where
  "timeout s =
     (case timers s of
        [] \<Rightarrow> Inr s
      | slideNumber # rest \<Rightarrow> commit slideNumber (s\<lparr>timers := rest\<rparr>))"

fun step :: "event \<Rightarrow> deck \<Rightarrow> error + deck" where
  "step NextSlide s = nextSlide s"
| "step PreviousSlide s = previousSlide s"
| "step (GoToSlide n) s = goToSlide n s"
| "step (HandleSwipe startX endX) s = handleSwipe startX endX s"
| "step (KeyDown k) s = keydown k s"
| "step Timeout s = timeout s"

fun run :: "event list \<Rightarrow> deck \<Rightarrow> error + deck" where
  "run [] s = Inr s"
| "run (e # es) s = (case step e s of Inl x \<Rightarrow> Inl x | Inr s' \<Rightarrow> run es s')"

subsection \<open>The view-time tracker\<close>

text \<open>
  \<open>slideViewTimes\<close> is the object used as a dictionary; the clock (\<^verbatim>\<open>Date.now()\<close>)
  is an argument. The constructor reads the clock twice. In \<open>trackSlideChange\<close>, the
  test \<^verbatim>\<open>!this.slideViewTimes[slideNumber]\<close> holds for a missing entry and for an
  entry that is 0; both are set to 0 before the duration is added.
\<close>

record analytics =
  slideViewTimes :: "int \<rightharpoonup> int"
  startTime :: int
  currentSlideStartTime :: int

definition SlideAnalytics :: "int \<Rightarrow> int \<Rightarrow> analytics" where
  "SlideAnalytics now1 now2 =
     \<lparr>slideViewTimes = Map.empty, startTime = now1, currentSlideStartTime = now2\<rparr>"

definition trackSlideChange :: "int \<Rightarrow> int \<Rightarrow> analytics \<Rightarrow> analytics" where
  "trackSlideChange slideNumber now a =
     (let duration = now - currentSlideStartTime a;
          falsy = (case slideViewTimes a slideNumber of None \<Rightarrow> True | Some v \<Rightarrow> v = 0);
          m1 = (if falsy then (slideViewTimes a)(slideNumber \<mapsto> 0) else slideViewTimes a);
          m2 = (case m1 slideNumber of
                  None \<Rightarrow> m1
                | Some v \<Rightarrow> m1(slideNumber \<mapsto> v + duration))
      in a\<lparr>slideViewTimes := m2, currentSlideStartTime := now\<rparr>)"

definition getReport :: "int \<Rightarrow> analytics \<Rightarrow> int \<times> (int \<rightharpoonup> int)" where
  "getReport now a = (now - startTime a, slideViewTimes a)"

text \<open>The total a slide number has accumulated, 0 for a number never seen.\<close>

definition accumulated :: "analytics \<Rightarrow> int \<Rightarrow> int" where
  "accumulated a k = (case slideViewTimes a k of None \<Rightarrow> 0 | Some v \<Rightarrow> v)"

section \<open>Well-formed states\<close>

text \<open>
  The states a constructed deck can be in: the slide count is the length of the
  collection, the current number is in range, and every scheduled callback carries a
  number that passed the guard.
\<close>

definition deck_ok :: "deck \<Rightarrow> bool" where
  "deck_ok s \<longleftrightarrow>
     totalSlides s = int (length (slides s)) \<and>
     1 \<le> currentSlide s \<and> currentSlide s \<le> totalSlides s \<and>
     list_all (\<lambda>n. 1 \<le> n \<and> n \<le> totalSlides s) (timers s)"

text \<open>The outcome of an operation started in state \<open>s\<close>: no error, and well-formedness kept.\<close>

definition stays_ok :: "deck \<Rightarrow> error + deck \<Rightarrow> bool" where
  "stays_ok s r \<longleftrightarrow>
     (\<exists>s'. r = Inr s' \<and> deck_ok s' \<and> totalSlides s' = totalSlides s \<and>
           length (slides s') = length (slides s))"

section \<open>A concrete deck\<close>

text \<open>
  A document of five slides, three of them with a title element, and the states of its
  deck at slide \<open>k\<close> with the callbacks \<open>ts\<close> pending.
\<close>

definition demo_slides :: "int \<Rightarrow> slide list" where
  "demo_slides k =
     [\<lparr>active = (k = 1), exit_left = False, slide_title = Some ''Overview''\<rparr>,
      \<lparr>active = (k = 2), exit_left = False, slide_title = None\<rparr>,
      \<lparr>active = (k = 3), exit_left = False, slide_title = Some ''Market''\<rparr>,
      \<lparr>active = (k = 4), exit_left = False, slide_title = None\<rparr>,
      \<lparr>active = (k = 5), exit_left = False, slide_title = Some ''Summary''\<rparr>]"

definition demo_dom :: dom where
  "demo_dom =
     \<lparr>slides = demo_slides 1,
      prevBtn = \<lparr>disabled = False, opacity = []\<rparr>,
      nextBtn = \<lparr>disabled = False, opacity = []\<rparr>,
      slideCounter = ''1 / 1'', progressBar = Num 0 0, title = ''Deck''\<rparr>"

definition empty_dom :: dom where
  "empty_dom = demo_dom\<lparr>slides := []\<rparr>"

definition demo_at :: "int \<Rightarrow> int list \<Rightarrow> deck" where
  "demo_at k ts =
     \<lparr>slides = demo_slides k,
      prevBtn = \<lparr>disabled = (k = 1), opacity = (if k = 1 then ''0.3'' else ''1'')\<rparr>,
      nextBtn = \<lparr>disabled = (k = 5), opacity = (if k = 5 then ''0.3'' else ''1'')\<rparr>,
      slideCounter = js_toString k @ '' / 5'',
      progressBar = js_mul (js_div k 5) 100, title = ''Deck'',
      currentSlide = k, totalSlides = 5, timers = ts\<rparr>"

text \<open>A deck of \<open>n\<close> slides without title elements, at slide \<open>k\<close> with the callbacks \<open>ts\<close> pending.\<close>

definition plain_slides :: "nat \<Rightarrow> int \<Rightarrow> slide list" where
  "plain_slides n k =
     map (\<lambda>i. \<lparr>active = (int i + 1 = k), exit_left = False, slide_title = None\<rparr>) [0..<n]"

definition plain_deck :: "nat \<Rightarrow> int \<Rightarrow> int list \<Rightarrow> deck" where
  "plain_deck n k ts =
     \<lparr>slides = plain_slides n k,
      prevBtn = \<lparr>disabled = (k = 1), opacity = (if k = 1 then ''0.3'' else ''1'')\<rparr>,
      nextBtn = \<lparr>disabled = (k = int n), opacity = (if k = int n then ''0.3'' else ''1'')\<rparr>,
      slideCounter = js_toString k @ '' / '' @ js_toString (int n),
      progressBar = js_mul (js_div k (int n)) 100, title = ''Deck'',
      currentSlide = k, totalSlides = int n, timers = ts\<rparr>"

section \<open>Basic facts about the operations\<close>

lemma item_Some:
  "0 \<le> i \<Longrightarrow> i < int (length xs) \<Longrightarrow> item xs i = Some (xs ! nat i)"
  by (simp add: item_def)

lemma updateButtonStates_fields:
  "slides (updateButtonStates s) = slides s"
  "currentSlide (updateButtonStates s) = currentSlide s"
  "totalSlides (updateButtonStates s) = totalSlides s"
  "timers (updateButtonStates s) = timers s"
  "slideCounter (updateButtonStates s) = slideCounter s"
  "progressBar (updateButtonStates s) = progressBar s"
  "title (updateButtonStates s) = title s"
  "prevBtn (updateButtonStates s) =
     (if currentSlide s = 1 then \<lparr>disabled = True, opacity = ''0.3''\<rparr>
      else \<lparr>disabled = False, opacity = ''1''\<rparr>)"
  "nextBtn (updateButtonStates s) =
     (if currentSlide s = totalSlides s then \<lparr>disabled = True, opacity = ''0.3''\<rparr>
      else \<lparr>disabled = False, opacity = ''1''\<rparr>)"
  by (simp_all add: updateButtonStates_def Let_def)

lemma updateUI_in_range:
  assumes "item (slides s) (currentSlide s - 1) = Some el"
  shows "\<exists>s'. updateUI s = Inr s' \<and>
           slides s' = slides s \<and> currentSlide s' = currentSlide s \<and>
           totalSlides s' = totalSlides s \<and> timers s' = timers s \<and>
           slideCounter s' = js_toString (currentSlide s) @ '' / '' @ js_toString (totalSlides s) \<and>
           progressBar s' = js_mul (js_div (currentSlide s) (totalSlides s)) 100 \<and>
           prevBtn s' = prevBtn (updateButtonStates s) \<and>
           nextBtn s' = nextBtn (updateButtonStates s) \<and>
           title s' = (case slide_title el of None \<Rightarrow> title s
                       | Some t \<Rightarrow> t @ '' - GMC Acadia Korea Market'')"
  using assms
  by (cases "slide_title el")
     (simp_all add: updateUI_def Let_def updateButtonStates_fields)

lemma updateUI_undefined:
  "item (slides s) (currentSlide s - 1) = None \<Longrightarrow> updateUI s = Inl TypeError"
  by (simp add: updateUI_def Let_def updateButtonStates_fields)


lemma deck_okD:
  assumes "deck_ok s"
  shows "totalSlides s = int (length (slides s))"
    and "1 \<le> currentSlide s"
    and "currentSlide s \<le> totalSlides s"
    and "list_all (\<lambda>n. 1 \<le> n \<and> n \<le> totalSlides s) (timers s)"
  using assms unfolding deck_ok_def by blast+

lemma commit_ok:
  assumes "totalSlides s = int (length (slides s))" and "1 \<le> n" and "n \<le> totalSlides s"
  shows "\<exists>s'. commit n s = Inr s' \<and>
           currentSlide s' = n \<and> totalSlides s' = totalSlides s \<and> timers s' = timers s \<and>
           length (slides s') = length (slides s) \<and>
           (\<forall>i < length (slides s).
              active (slides s' ! i) = (i = nat (n - 1)) \<and>
              exit_left (slides s' ! i) = False \<and>
              slide_title (slides s' ! i) = slide_title (slides s ! i)) \<and>
           slideCounter s' = js_toString n @ '' / '' @ js_toString (totalSlides s) \<and>
           progressBar s' = js_mul (js_div n (totalSlides s)) 100 \<and>
           prevBtn s' = (if n = 1 then \<lparr>disabled = True, opacity = ''0.3''\<rparr>
                         else \<lparr>disabled = False, opacity = ''1''\<rparr>) \<and>
           nextBtn s' = (if n = totalSlides s then \<lparr>disabled = True, opacity = ''0.3''\<rparr>
                         else \<lparr>disabled = False, opacity = ''1''\<rparr>) \<and>
           title s' = (case slide_title (slides s ! nat (n - 1)) of None \<Rightarrow> title s
                       | Some t \<Rightarrow> t @ '' - GMC Acadia Korea Market'')"
proof -
  let ?reset = "map (\<lambda>sl. sl\<lparr>active := False, exit_left := False\<rparr>) (slides s)"
  let ?el = "(?reset ! nat (n - 1))\<lparr>active := True\<rparr>"
  let ?t = "s\<lparr>slides := ?reset[nat (n - 1) := ?el], currentSlide := n\<rparr>"
  have idx: "nat (n - 1) < length (slides s)"
    using assms by simp
  have it: "item ?reset (n - 1) = Some (?reset ! nat (n - 1))"
    using assms idx by (simp add: item_def)
  have c: "commit n s = updateUI ?t"
    unfolding commit_def Let_def it by simp
  have "item (slides ?t) (currentSlide ?t - 1) = Some ?el"
    using assms idx by (simp add: item_def)
  from updateUI_in_range [OF this] obtain s' where
    u: "updateUI ?t = Inr s'" and
    f: "slides s' = slides ?t" "currentSlide s' = currentSlide ?t"
       "totalSlides s' = totalSlides ?t" "timers s' = timers ?t"
       "slideCounter s' = js_toString (currentSlide ?t) @ '' / '' @ js_toString (totalSlides ?t)"
       "progressBar s' = js_mul (js_div (currentSlide ?t) (totalSlides ?t)) 100"
       "prevBtn s' = prevBtn (updateButtonStates ?t)"
       "nextBtn s' = nextBtn (updateButtonStates ?t)"
       "title s' = (case slide_title ?el of None \<Rightarrow> title ?t
                       | Some t \<Rightarrow> t @ '' - GMC Acadia Korea Market'')"
    by blast
  have fl: "\<forall>i < length (slides s).
              active (slides s' ! i) = (i = nat (n - 1)) \<and>
              exit_left (slides s' ! i) = False \<and>
              slide_title (slides s' ! i) = slide_title (slides s ! i)"
    using f(1) idx by (simp add: nth_list_update)
  have rest: "commit n s = Inr s'" "currentSlide s' = n" "totalSlides s' = totalSlides s"
    "timers s' = timers s" "length (slides s') = length (slides s)"
    "slideCounter s' = js_toString n @ '' / '' @ js_toString (totalSlides s)"
    "progressBar s' = js_mul (js_div n (totalSlides s)) 100"
    "prevBtn s' = (if n = 1 then \<lparr>disabled = True, opacity = ''0.3''\<rparr>
                         else \<lparr>disabled = False, opacity = ''1''\<rparr>)"
    "nextBtn s' = (if n = totalSlides s then \<lparr>disabled = True, opacity = ''0.3''\<rparr>
                         else \<lparr>disabled = False, opacity = ''1''\<rparr>)"
    "title s' = (case slide_title (slides s ! nat (n - 1)) of None \<Rightarrow> title s
                       | Some t \<Rightarrow> t @ '' - GMC Acadia Korea Market'')"
    using c u f idx by (simp_all add: updateButtonStates_fields cong: option.case_cong)
  show ?thesis
    using fl rest by blast
qed

lemma goToSlide_ok:
  assumes "deck_ok s" and "1 \<le> n" and "n \<le> totalSlides s"
  shows "\<exists>s'. goToSlide n s = Inr s' \<and>
           currentSlide s' = currentSlide s \<and> totalSlides s' = totalSlides s \<and>
           timers s' = timers s @ [n] \<and>
           slides s' = (slides s)[nat (currentSlide s - 1) :=
             (slides s ! nat (currentSlide s - 1))
               \<lparr>active := False,
                exit_left := (n > currentSlide s \<or> exit_left (slides s ! nat (currentSlide s - 1)))\<rparr>] \<and>
           prevBtn s' = prevBtn s \<and> nextBtn s' = nextBtn s \<and>
           slideCounter s' = slideCounter s \<and> progressBar s' = progressBar s \<and>
           title s' = title s"
  using assms
  by (auto simp add: goToSlide_def deck_ok_def item_def Let_def)

lemma goToSlide_guard: "n < 1 \<or> n > totalSlides s \<Longrightarrow> goToSlide n s = Inr s"
  by (simp add: goToSlide_def)

lemma goToSlide_keeps_ok:
  assumes "deck_ok s"
  shows "stays_ok s (goToSlide n s)"
proof (cases "n < 1 \<or> n > totalSlides s")
  case True
  then show ?thesis using assms by (simp add: goToSlide_guard stays_ok_def)
next
  case False
  then have r: "1 \<le> n" "n \<le> totalSlides s" by auto
  from goToSlide_ok [OF assms r] obtain s' where
    g: "goToSlide n s = Inr s'" "currentSlide s' = currentSlide s"
       "totalSlides s' = totalSlides s" "timers s' = timers s @ [n]"
    and sl: "slides s' = (slides s)[nat (currentSlide s - 1) :=
             (slides s ! nat (currentSlide s - 1))
               \<lparr>active := False,
                exit_left := (n > currentSlide s \<or> exit_left (slides s ! nat (currentSlide s - 1)))\<rparr>]"
    by blast
  have len: "length (slides s') = length (slides s)"
    using sl by simp
  have "deck_ok s'"
    unfolding deck_ok_def using deck_okD [OF assms] g len r by simp
  then show ?thesis
    using g len by (simp add: stays_ok_def)
qed

lemma stays_ok_refl: "deck_ok s \<Longrightarrow> stays_ok s (Inr s)"
  by (simp add: stays_ok_def)

lemma nextSlide_keeps_ok: "deck_ok s \<Longrightarrow> stays_ok s (nextSlide s)"
  by (simp add: nextSlide_def goToSlide_keeps_ok stays_ok_refl)

lemma previousSlide_keeps_ok: "deck_ok s \<Longrightarrow> stays_ok s (previousSlide s)"
  by (simp add: previousSlide_def goToSlide_keeps_ok stays_ok_refl)

lemma handleSwipe_keeps_ok: "deck_ok s \<Longrightarrow> stays_ok s (handleSwipe a b s)"
  by (simp add: handleSwipe_def Let_def nextSlide_keeps_ok previousSlide_keeps_ok stays_ok_refl)

lemma keydown_keeps_ok: "deck_ok s \<Longrightarrow> stays_ok s (keydown k s)"
  unfolding keydown_def
  by (simp only: nextSlide_keeps_ok previousSlide_keeps_ok goToSlide_keeps_ok stays_ok_refl
        if_split simp_thms)

lemma timeout_keeps_ok:
  assumes "deck_ok s"
  shows "stays_ok s (timeout s)"
proof (cases "timers s")
  case Nil
  then show ?thesis using assms by (simp add: timeout_def stays_ok_refl)
next
  case (Cons n rest)
  let ?t = "s\<lparr>timers := rest\<rparr>"
  have a: "totalSlides ?t = int (length (slides ?t))" "1 \<le> n" "n \<le> totalSlides ?t"
    and r: "list_all (\<lambda>n. 1 \<le> n \<and> n \<le> totalSlides s) rest"
    using deck_okD [OF assms] Cons by simp_all
  from commit_ok [OF a] obtain s' where
    c: "commit n ?t = Inr s'" "currentSlide s' = n" "totalSlides s' = totalSlides ?t"
    "timers s' = timers ?t" "length (slides s') = length (slides ?t)"
    by blast
  have "deck_ok s'"
    unfolding deck_ok_def using a r c by simp
  then show ?thesis
    using c Cons by (simp add: timeout_def stays_ok_def)
qed

lemma step_keeps_ok: "deck_ok s \<Longrightarrow> stays_ok s (step e s)"
  by (cases e)
     (simp_all add: nextSlide_keeps_ok previousSlide_keeps_ok goToSlide_keeps_ok
        handleSwipe_keeps_ok keydown_keeps_ok timeout_keeps_ok)

lemma run_keeps_ok: "deck_ok s \<Longrightarrow> stays_ok s (run es s)"
proof (induction es arbitrary: s)
  case Nil
  then show ?case by (simp add: stays_ok_refl)
next
  case (Cons e es)
  from step_keeps_ok [OF Cons.prems, of e] obtain s1 where
    s1: "step e s = Inr s1" "deck_ok s1" "totalSlides s1 = totalSlides s"
        "length (slides s1) = length (slides s)"
    unfolding stays_ok_def by blast
  from Cons.IH [OF s1(2)] obtain s' where
    "run es s1 = Inr s'" "deck_ok s'" "totalSlides s' = totalSlides s1"
    "length (slides s') = length (slides s1)"
    unfolding stays_ok_def by blast
  then show ?case using s1 by (simp add: stays_ok_def)
qed

lemma SlideDeck_ok:
  assumes "slides d \<noteq> []"
  shows "\<exists>s. SlideDeck d = Inr s \<and> deck_ok s \<and> currentSlide s = 1 \<and> timers s = [] \<and>
           slides s = slides d \<and> totalSlides s = int (length (slides d)) \<and>
           slideCounter s = js_toString 1 @ '' / '' @ js_toString (int (length (slides d))) \<and>
           progressBar s = js_mul (js_div 1 (int (length (slides d)))) 100 \<and>
           prevBtn s = \<lparr>disabled = True, opacity = ''0.3''\<rparr> \<and>
           nextBtn s = (if length (slides d) = 1 then \<lparr>disabled = True, opacity = ''0.3''\<rparr>
                        else \<lparr>disabled = False, opacity = ''1''\<rparr>) \<and>
           title s = (case slide_title (slides d ! 0) of None \<Rightarrow> title d
                       | Some t \<Rightarrow> t @ '' - GMC Acadia Korea Market'')"
proof -
  let ?t = "\<lparr>slides = slides d, prevBtn = prevBtn d, nextBtn = nextBtn d,
               slideCounter = slideCounter d, progressBar = progressBar d, title = title d,
               currentSlide = 1, totalSlides = int (length (slides d)), timers = []\<rparr>"
  have "item (slides ?t) (currentSlide ?t - 1) = Some (slides d ! 0)"
    using assms by (simp add: item_def)
  from updateUI_in_range [OF this] obtain s where
    "updateUI ?t = Inr s"
    "slides s = slides ?t" "currentSlide s = currentSlide ?t"
       "totalSlides s = totalSlides ?t" "timers s = timers ?t"
       "slideCounter s = js_toString (currentSlide ?t) @ '' / '' @ js_toString (totalSlides ?t)"
       "progressBar s = js_mul (js_div (currentSlide ?t) (totalSlides ?t)) 100"
       "prevBtn s = prevBtn (updateButtonStates ?t)"
       "nextBtn s = nextBtn (updateButtonStates ?t)"
       "title s = (case slide_title (slides d ! 0) of None \<Rightarrow> title ?t
                       | Some t \<Rightarrow> t @ '' - GMC Acadia Korea Market'')"
    by blast
  then show ?thesis
    using assms
    by (auto simp add: SlideDeck_def deck_ok_def updateButtonStates_fields Suc_le_eq
             cong: option.case_cong)
qed

lemma SlideDeck_empty: "slides d = [] \<Longrightarrow> SlideDeck d = Inl TypeError"
  by (simp add: SlideDeck_def updateUI_undefined item_def)

lemma timeout_commit:
  assumes "deck_ok s" and "timers s = n # rest"
  obtains s' where
    "timeout s = Inr s'" "deck_ok s'" "timers s' = rest" "currentSlide s' = n"
    "totalSlides s' = totalSlides s" "length (slides s') = length (slides s)"
    "\<forall>i < length (slides s).
        active (slides s' ! i) = (i = nat (n - 1)) \<and>
        exit_left (slides s' ! i) = False \<and>
        slide_title (slides s' ! i) = slide_title (slides s ! i)"
    "slideCounter s' = js_toString n @ '' / '' @ js_toString (totalSlides s)"
    "progressBar s' = js_mul (js_div n (totalSlides s)) 100"
    "prevBtn s' = (if n = 1 then \<lparr>disabled = True, opacity = ''0.3''\<rparr>
                   else \<lparr>disabled = False, opacity = ''1''\<rparr>)"
    "nextBtn s' = (if n = totalSlides s then \<lparr>disabled = True, opacity = ''0.3''\<rparr>
                   else \<lparr>disabled = False, opacity = ''1''\<rparr>)"
    "title s' = (case slide_title (slides s ! nat (n - 1)) of None \<Rightarrow> title s
                 | Some t \<Rightarrow> t @ '' - GMC Acadia Korea Market'')"
proof -
  let ?t = "s\<lparr>timers := rest\<rparr>"
  have a: "totalSlides ?t = int (length (slides ?t))" "1 \<le> n" "n \<le> totalSlides ?t"
    and r: "list_all (\<lambda>n. 1 \<le> n \<and> n \<le> totalSlides s) rest"
    using deck_okD [OF assms(1)] assms(2) by simp_all
  from commit_ok [OF a] obtain s' where
    c: "commit n ?t = Inr s'" "currentSlide s' = n" "totalSlides s' = totalSlides ?t"
       "timers s' = timers ?t" "length (slides s') = length (slides ?t)"
    and fl: "\<forall>i < length (slides ?t).
              active (slides s' ! i) = (i = nat (n - 1)) \<and>
              exit_left (slides s' ! i) = False \<and>
              slide_title (slides s' ! i) = slide_title (slides ?t ! i)"
    and ui: "slideCounter s' = js_toString n @ '' / '' @ js_toString (totalSlides ?t)"
       "progressBar s' = js_mul (js_div n (totalSlides ?t)) 100"
       "prevBtn s' = (if n = 1 then \<lparr>disabled = True, opacity = ''0.3''\<rparr>
                         else \<lparr>disabled = False, opacity = ''1''\<rparr>)"
       "nextBtn s' = (if n = totalSlides ?t then \<lparr>disabled = True, opacity = ''0.3''\<rparr>
                         else \<lparr>disabled = False, opacity = ''1''\<rparr>)"
       "title s' = (case slide_title (slides ?t ! nat (n - 1)) of None \<Rightarrow> title ?t
                       | Some t \<Rightarrow> t @ '' - GMC Acadia Korea Market'')"
    by blast
  have ok: "deck_ok s'"
    unfolding deck_ok_def using a r c by simp
  have t: "timeout s = Inr s'"
    using c(1) assms(2) by (simp add: timeout_def)
  show thesis
  proof (rule that [of s'])
    show "timeout s = Inr s'" by (rule t)
    show "deck_ok s'" by (rule ok)
    show "timers s' = rest" using c by simp
    show "currentSlide s' = n" using c by simp
    show "totalSlides s' = totalSlides s" using c by simp
    show "length (slides s') = length (slides s)" using c by simp
    show "\<forall>i < length (slides s).
        active (slides s' ! i) = (i = nat (n - 1)) \<and>
        exit_left (slides s' ! i) = False \<and>
        slide_title (slides s' ! i) = slide_title (slides s ! i)"
      using fl by simp
    show "slideCounter s' = js_toString n @ '' / '' @ js_toString (totalSlides s)"
      using ui(1) by simp
    show "progressBar s' = js_mul (js_div n (totalSlides s)) 100"
      using ui(2) by simp
    show "prevBtn s' = (if n = 1 then \<lparr>disabled = True, opacity = ''0.3''\<rparr>
                   else \<lparr>disabled = False, opacity = ''1''\<rparr>)"
      using ui(3) by simp
    show "nextBtn s' = (if n = totalSlides s then \<lparr>disabled = True, opacity = ''0.3''\<rparr>
                   else \<lparr>disabled = False, opacity = ''1''\<rparr>)"
      using ui(4) by simp
    show "title s' = (case slide_title (slides s ! nat (n - 1)) of None \<Rightarrow> title s
                 | Some t \<Rightarrow> t @ '' - GMC Acadia Korea Market'')"
      using ui(5) by (simp cong: option.case_cong)
  qed
qed

text \<open>Running every pending callback: the last one scheduled decides the outcome.\<close>

lemma flush_timers:
  assumes "deck_ok s" and "timers s = ts @ [n]"
  obtains s' where
    "run (replicate (Suc (length ts)) Timeout) s = Inr s'" "deck_ok s'" "timers s' = []"
    "currentSlide s' = n" "totalSlides s' = totalSlides s"
    "length (slides s') = length (slides s)"
    "\<forall>i < length (slides s).
        active (slides s' ! i) = (i = nat (n - 1)) \<and>
        exit_left (slides s' ! i) = False \<and>
        slide_title (slides s' ! i) = slide_title (slides s ! i)"
    "slideCounter s' = js_toString n @ '' / '' @ js_toString (totalSlides s)"
    "progressBar s' = js_mul (js_div n (totalSlides s)) 100"
    "prevBtn s' = (if n = 1 then \<lparr>disabled = True, opacity = ''0.3''\<rparr>
                   else \<lparr>disabled = False, opacity = ''1''\<rparr>)"
    "nextBtn s' = (if n = totalSlides s then \<lparr>disabled = True, opacity = ''0.3''\<rparr>
                   else \<lparr>disabled = False, opacity = ''1''\<rparr>)"
  using assms
proof (induction ts arbitrary: s thesis)
  case Nil
  then have tm: "timers s = n # []" by simp
  from timeout_commit [OF Nil.prems(2) tm] obtain s' where
    f: "timeout s = Inr s'" "deck_ok s'" "timers s' = []" "currentSlide s' = n"
    "totalSlides s' = totalSlides s" "length (slides s') = length (slides s)"
    "\<forall>i < length (slides s).
        active (slides s' ! i) = (i = nat (n - 1)) \<and>
        exit_left (slides s' ! i) = False \<and>
        slide_title (slides s' ! i) = slide_title (slides s ! i)"
    "slideCounter s' = js_toString n @ '' / '' @ js_toString (totalSlides s)"
    "progressBar s' = js_mul (js_div n (totalSlides s)) 100"
    "prevBtn s' = (if n = 1 then \<lparr>disabled = True, opacity = ''0.3''\<rparr>
                   else \<lparr>disabled = False, opacity = ''1''\<rparr>)"
    "nextBtn s' = (if n = totalSlides s then \<lparr>disabled = True, opacity = ''0.3''\<rparr>
                   else \<lparr>disabled = False, opacity = ''1''\<rparr>)"
    by blast
  have "run (replicate (Suc (length ([]::int list))) Timeout) s = Inr s'"
    using f(1) by simp
  then show ?case
    using f by (intro Nil.prems(1) [of s']) assumption+
next
  case (Cons t ts)
  then have tm: "timers s = t # (ts @ [n])" by simp
  from timeout_commit [OF Cons.prems(2) tm] obtain s1 where
    f1: "timeout s = Inr s1" "deck_ok s1" "timers s1 = ts @ [n]"
    "totalSlides s1 = totalSlides s" "length (slides s1) = length (slides s)"
    and fl1: "\<forall>i < length (slides s).
        active (slides s1 ! i) = (i = nat (t - 1)) \<and>
        exit_left (slides s1 ! i) = False \<and>
        slide_title (slides s1 ! i) = slide_title (slides s ! i)"
    by blast
  have t1: "\<forall>i < length (slides s). slide_title (slides s1 ! i) = slide_title (slides s ! i)"
    using fl1 by simp
  show ?case
  proof (rule Cons.IH [OF _ f1(2) f1(3)])
    fix s'
    assume f: "run (replicate (Suc (length ts)) Timeout) s1 = Inr s'" "deck_ok s'"
      "timers s' = []" "currentSlide s' = n" "totalSlides s' = totalSlides s1"
      "length (slides s') = length (slides s1)"
      "\<forall>i < length (slides s1).
        active (slides s' ! i) = (i = nat (n - 1)) \<and>
        exit_left (slides s' ! i) = False \<and>
        slide_title (slides s' ! i) = slide_title (slides s1 ! i)"
      "slideCounter s' = js_toString n @ '' / '' @ js_toString (totalSlides s1)"
      "progressBar s' = js_mul (js_div n (totalSlides s1)) 100"
      "prevBtn s' = (if n = 1 then \<lparr>disabled = True, opacity = ''0.3''\<rparr>
                   else \<lparr>disabled = False, opacity = ''1''\<rparr>)"
      "nextBtn s' = (if n = totalSlides s1 then \<lparr>disabled = True, opacity = ''0.3''\<rparr>
                   else \<lparr>disabled = False, opacity = ''1''\<rparr>)"
    have r: "run (replicate (Suc (length (t # ts))) Timeout) s = Inr s'"
      using f1(1) f(1) by simp
    have fl: "\<forall>i < length (slides s).
        active (slides s' ! i) = (i = nat (n - 1)) \<and>
        exit_left (slides s' ! i) = False \<and>
        slide_title (slides s' ! i) = slide_title (slides s ! i)"
      using f(7) t1 f1(5) by simp
    show thesis
      using r f(2,3,4) f(5,6,8,9,10,11) fl unfolding f1(4) f1(5)
      by (intro Cons.prems(1) [of s']) assumption+
  qed
qed

lemma run_append:
  "run (xs @ ys) s = (case run xs s of Inl x \<Rightarrow> Inl x | Inr s' \<Rightarrow> run ys s')"
  by (induction xs arbitrary: s) (simp_all split: sum.split)

text \<open>Running the callbacks scheduled before a given one leaves that one pending.\<close>

lemma run_pending:
  assumes "deck_ok s" and "timers s = ts @ rest"
  obtains sm where
    "run (replicate (length ts) Timeout) s = Inr sm" "deck_ok sm" "timers sm = rest"
    "totalSlides sm = totalSlides s" "length (slides sm) = length (slides s)"
    "\<forall>i < length (slides s). slide_title (slides sm ! i) = slide_title (slides s ! i)"
  using assms
proof (induction ts arbitrary: s thesis)
  case Nil
  show ?case
    using Nil.prems(2,3) by (intro Nil.prems(1) [of s]) simp_all
next
  case (Cons t ts)
  then have tm: "timers s = t # (ts @ rest)" by simp
  from timeout_commit [OF Cons.prems(2) tm] obtain s1 where
    f1: "timeout s = Inr s1" "deck_ok s1" "timers s1 = ts @ rest"
    "totalSlides s1 = totalSlides s" "length (slides s1) = length (slides s)"
    and fl1: "\<forall>i < length (slides s).
        active (slides s1 ! i) = (i = nat (t - 1)) \<and>
        exit_left (slides s1 ! i) = False \<and>
        slide_title (slides s1 ! i) = slide_title (slides s ! i)"
    by blast
  show ?case
  proof (rule Cons.IH [OF _ f1(2) f1(3)])
    fix sm
    assume f: "run (replicate (length ts) Timeout) s1 = Inr sm" "deck_ok sm"
      "timers sm = rest" "totalSlides sm = totalSlides s1"
      "length (slides sm) = length (slides s1)"
      "\<forall>i < length (slides s1). slide_title (slides sm ! i) = slide_title (slides s1 ! i)"
    have r: "run (replicate (length (t # ts)) Timeout) s = Inr sm"
      using f1(1) f(1) by simp
    have tl: "\<forall>i < length (slides s). slide_title (slides sm ! i) = slide_title (slides s ! i)"
      using f(6) fl1 f1(5) by simp
    show thesis
      using r f(2,3) f(4,5) tl unfolding f1(4) f1(5)
      by (intro Cons.prems(1) [of sm]) assumption+
  qed
qed

section \<open>Values of the progress width\<close>

text \<open>\<open>round_half_even\<close> returns a nearest integer, and an integer quotient itself.\<close>

lemma round_half_even_nearest:
  assumes "0 < b"
  shows "2 * \<bar>round_half_even a b * b - a\<bar> \<le> b"
proof -
  define d where "d = a div b"
  define r where "r = a mod b"
  have a: "a = d * b + r"
    by (simp add: d_def r_def)
  have r: "0 \<le> r" "r < b"
    using assms by (simp_all add: r_def)
  have down: "2 * \<bar>d * b - a\<bar> \<le> b" if "2 * r \<le> b"
    using that r a by simp
  have up: "2 * \<bar>(d + 1) * b - a\<bar> \<le> b" if "b \<le> 2 * r"
    using that r a by (simp add: algebra_simps)
  have "round_half_even a b = d \<and> 2 * r \<le> b \<or> round_half_even a b = d + 1 \<and> b \<le> 2 * r"
    unfolding round_half_even_def Let_def d_def [symmetric] r_def [symmetric]
    by (cases "2 * r < b"; cases "b < 2 * r"; cases "even d") simp_all
  then show ?thesis
    using down up by auto
qed

lemma round_half_even_exact: "0 < b \<Longrightarrow> round_half_even (n * b) b = n"
  by (simp add: round_half_even_def Let_def)

lemma js_div_same: "0 < k \<Longrightarrow> js_div k k = Num 4503599627370496 (- 52)"
  by (simp add: js_div_def round_double_def round_half_even_def Let_def)

lemma hundred_times_one: "js_mul (Num 4503599627370496 (- 52)) 100 = Num 7036874417766400 (- 46)"
  by code_simp

text \<open>On the last slide the quotient is 1 and the width is 100, without rounding.\<close>

lemma progress_last_slide: "0 < k \<Longrightarrow> js_mul (js_div k k) 100 = Num 7036874417766400 (- 46)"
  by (simp only: js_div_same hundred_times_one)

text \<open>
  The widths of some slides, as the doubles the code computes: 20, 60 and 100 on a deck
  of five; 33.33333333333333 for slide 1 of 3 and 55.00000000000001 for slide 11 of 20,
  where the quotient and the product are rounded.
\<close>

lemma progress_examples:
  "js_mul (js_div 1 5) 100 = Num 5629499534213120 (- 48)"
  "js_mul (js_div 3 5) 100 = Num 8444249301319680 (- 47)"
  "js_mul (js_div 5 5) 100 = Num 7036874417766400 (- 46)"
  "js_mul (js_div 1 3) 100 = Num 4691249611844266 (- 47)"
  "js_mul (js_div 11 20) 100 = Num 7740561859543041 (- 47)"
  by code_simp+

lemma progress_example_values:
  "num_value 5629499534213120 (- 48) = 20"
  "num_value 8444249301319680 (- 47) = 60"
  "num_value 7036874417766400 (- 46) = 100"
  "num_value 4691249611844266 (- 47) = 100 / 3 - 1 / 211106232532992"
  "num_value 7740561859543041 (- 47) = 55 + 1 / 140737488355328"
  by (simp_all add: num_value_def)

section \<open>Facts about the concrete deck\<close>

lemma js_toString_digits:
  "js_toString 1 = ''1''" "js_toString 2 = ''2''" "js_toString 3 = ''3''"
  "js_toString 4 = ''4''" "js_toString 5 = ''5''"
  by (simp_all add: js_toString_def string_of_nat.simps digit_char_def)

lemma demo_at_fields:
  "currentSlide (demo_at k ts) = k"
  "totalSlides (demo_at k ts) = 5"
  "timers (demo_at k ts) = ts"
  "slides (demo_at k ts) = demo_slides k"
  by (simp_all add: demo_at_def)

lemma demo_at_ok:
  "1 \<le> k \<Longrightarrow> k \<le> 5 \<Longrightarrow> list_all (\<lambda>n. 1 \<le> n \<and> n \<le> 5) ts \<Longrightarrow> deck_ok (demo_at k ts)"
  by (simp add: deck_ok_def demo_at_def demo_slides_def)

lemma js_toString_two_digits:
  "js_toString 11 = ''11''" "js_toString 20 = ''20''"
  by (simp_all add: js_toString_def string_of_nat.simps digit_char_def)

lemma plain_deck_fields:
  "currentSlide (plain_deck n k ts) = k"
  "totalSlides (plain_deck n k ts) = int n"
  "timers (plain_deck n k ts) = ts"
  "slides (plain_deck n k ts) = plain_slides n k"
  "title (plain_deck n k ts) = ''Deck''"
  by (simp_all add: plain_deck_def)

lemma plain_deck_ok:
  "1 \<le> k \<Longrightarrow> k \<le> int n \<Longrightarrow> list_all (\<lambda>i. 1 \<le> i \<and> i \<le> int n) ts \<Longrightarrow>
     deck_ok (plain_deck n k ts)"
  by (simp add: deck_ok_def plain_deck_def plain_slides_def)

section \<open>The navigation guard\<close>

text \<open>
  Claim C2. For every \<open>n\<close> below 1 or above \<open>totalSlides\<close>, \<open>goToSlide n\<close> returns
  the state it was given: the current number, every slide's flags, the counter, the
  progress width, both buttons and the document title are the same, and the list of
  scheduled callbacks has not grown. No hypothesis on the state is needed.
\<close>

theorem goToSlide_out_of_range_noop:
  "n < 1 \<or> n > totalSlides s \<Longrightarrow> goToSlide n s = Inr s"
  by (simp add: goToSlide_def)

theorem goToSlide_out_of_range_noop_witness:
  "goToSlide 0 (demo_at 3 []) = Inr (demo_at 3 []) \<and>
   goToSlide 6 (demo_at 3 []) = Inr (demo_at 3 [])"
proof -
  have "(0::int) < 1 \<or> 0 > totalSlides (demo_at 3 [])"
    by simp
  moreover have "(6::int) < 1 \<or> 6 > totalSlides (demo_at 3 [])"
    by (simp add: demo_at_fields)
  ultimately show ?thesis
    using goToSlide_out_of_range_noop [of 0 "demo_at 3 []"]
          goToSlide_out_of_range_noop [of 6 "demo_at 3 []"]
    by blast
qed

section \<open>Saturating next and previous\<close>

text \<open>
  Claim C4. \<open>nextSlide\<close> is \<open>goToSlide (currentSlide + 1)\<close> below the last slide and
  returns the state unchanged, without an error, on the last slide; \<open>previousSlide\<close> is
  \<open>goToSlide (currentSlide - 1)\<close> above the first slide and returns the state unchanged
  on the first.
\<close>

theorem next_previous_saturate:
  "(currentSlide s < totalSlides s \<longrightarrow> nextSlide s = goToSlide (currentSlide s + 1) s) \<and>
   (currentSlide s = totalSlides s \<longrightarrow> nextSlide s = Inr s) \<and>
   (currentSlide s > 1 \<longrightarrow> previousSlide s = goToSlide (currentSlide s - 1) s) \<and>
   (currentSlide s = 1 \<longrightarrow> previousSlide s = Inr s)"
  by (simp add: nextSlide_def previousSlide_def)

theorem next_previous_saturate_witness:
  "nextSlide (demo_at 3 []) = goToSlide 4 (demo_at 3 []) \<and>
   nextSlide (demo_at 5 []) = Inr (demo_at 5 []) \<and>
   previousSlide (demo_at 3 []) = goToSlide 2 (demo_at 3 []) \<and>
   previousSlide (demo_at 1 []) = Inr (demo_at 1 [])"
  using next_previous_saturate [of "demo_at 3 []"]
        next_previous_saturate [of "demo_at 5 []"]
        next_previous_saturate [of "demo_at 1 []"]
  by (simp add: demo_at_fields)

section \<open>Swipes\<close>

text \<open>
  Claim C6. With \<open>difference = startX - endX\<close>: a swipe of absolute difference at most
  50 returns the state unchanged, so it neither changes the current number nor
  schedules anything; a difference above 50 is \<open>nextSlide\<close>; a difference below -50 is
  \<open>previousSlide\<close>.
\<close>

theorem handleSwipe_threshold:
  "(\<bar>startX - endX\<bar> \<le> 50 \<longrightarrow> handleSwipe startX endX s = Inr s) \<and>
   (startX - endX > 50 \<longrightarrow> handleSwipe startX endX s = nextSlide s) \<and>
   (startX - endX < - 50 \<longrightarrow> handleSwipe startX endX s = previousSlide s)"
  by (simp add: handleSwipe_def Let_def)

theorem handleSwipe_threshold_witness:
  "handleSwipe 100 150 (demo_at 3 []) = Inr (demo_at 3 []) \<and>
   handleSwipe 200 100 (demo_at 3 []) = nextSlide (demo_at 3 []) \<and>
   handleSwipe 100 200 (demo_at 3 []) = previousSlide (demo_at 3 [])"
  using handleSwipe_threshold [of 100 150 "demo_at 3 []"]
        handleSwipe_threshold [of 200 100 "demo_at 3 []"]
        handleSwipe_threshold [of 100 200 "demo_at 3 []"]
  by simp

section \<open>The view-time tracker\<close>

text \<open>
  Claim C9. \<open>trackSlideChange k\<close> at clock reading \<open>now\<close> adds \<open>now\<close> minus the
  last-transition timestamp to the total of \<open>k\<close>, a number never seen counting as 0,
  leaves the total of every other number as it was, and sets the last-transition
  timestamp to \<open>now\<close>. On a fresh tracker the last-transition timestamp is the clock
  reading the constructor stored in \<open>currentSlideStartTime\<close>, so the first call adds
  the time elapsed since construction.
\<close>

theorem trackSlideChange_adds_elapsed:
  "slideViewTimes (trackSlideChange k now a) k =
     Some (accumulated a k + (now - currentSlideStartTime a)) \<and>
   (\<forall>j. j \<noteq> k \<longrightarrow>
      slideViewTimes (trackSlideChange k now a) j = slideViewTimes a j) \<and>
   currentSlideStartTime (trackSlideChange k now a) = now \<and>
   startTime (trackSlideChange k now a) = startTime a \<and>
   currentSlideStartTime (SlideAnalytics t0 t1) = t1 \<and>
   accumulated (SlideAnalytics t0 t1) k = 0"
  by (simp add: trackSlideChange_def accumulated_def SlideAnalytics_def Let_def
           split: option.split)

theorem trackSlideChange_adds_elapsed_witness:
  "slideViewTimes (trackSlideChange 2 1500 (SlideAnalytics 1000 1000)) 2 = Some 500 \<and>
   slideViewTimes (trackSlideChange 2 1500 (SlideAnalytics 1000 1000)) 3 = None \<and>
   currentSlideStartTime (trackSlideChange 2 1500 (SlideAnalytics 1000 1000)) = 1500 \<and>
   slideViewTimes
     (trackSlideChange 2 1800 (trackSlideChange 2 1500 (SlideAnalytics 1000 1000))) 2 =
     Some 800"
proof -
  let ?a0 = "SlideAnalytics 1000 1000"
  let ?a1 = "trackSlideChange 2 1500 ?a0"
  have first: "slideViewTimes ?a1 2 = Some (accumulated ?a0 2 + (1500 - currentSlideStartTime ?a0))"
    and other: "slideViewTimes ?a1 3 = slideViewTimes ?a0 3"
    and stamp: "currentSlideStartTime ?a1 = 1500"
    and fresh: "currentSlideStartTime ?a0 = 1000" "accumulated ?a0 2 = 0"
    using trackSlideChange_adds_elapsed [of 2 1500 ?a0 1000 1000] by simp_all
  have second: "slideViewTimes (trackSlideChange 2 1800 ?a1) 2 =
      Some (accumulated ?a1 2 + (1800 - currentSlideStartTime ?a1))"
    using trackSlideChange_adds_elapsed [of 2 1800 ?a1 1000 1000] by simp
  have unseen: "slideViewTimes ?a0 3 = None"
    by (simp add: SlideAnalytics_def)
  have acc1: "accumulated ?a1 2 = 500"
    using first fresh by (simp add: accumulated_def)
  show ?thesis
    using first other stamp fresh second unseen acc1 by simp
qed

section \<open>A navigation and its deferred commit\<close>

text \<open>
  Claim C1. In a well-formed state, \<open>goToSlide n\<close> with \<open>n\<close> in range returns without
  an error, leaves the current number as it is and schedules one callback; once the
  pending callbacks have run (in an idle deck: the one callback just scheduled), the
  current number is \<open>n\<close>, nothing is pending, and the slide at position \<open>n - 1\<close> is the
  one and only slide that is active.
\<close>

theorem goToSlide_reaches_target:
  assumes "deck_ok s" and "1 \<le> n" and "n \<le> totalSlides s"
  shows "\<exists>s1 s2. goToSlide n s = Inr s1 \<and> timers s1 = timers s @ [n] \<and>
           currentSlide s1 = currentSlide s \<and>
           run (replicate (length (timers s1)) Timeout) s1 = Inr s2 \<and>
           currentSlide s2 = n \<and> timers s2 = [] \<and>
           length (slides s2) = length (slides s) \<and> nat (n - 1) < length (slides s2) \<and>
           (\<forall>i < length (slides s2). active (slides s2 ! i) \<longleftrightarrow> i = nat (n - 1))"
proof -
  from goToSlide_ok [OF assms] obtain s1 where
    g: "goToSlide n s = Inr s1" "currentSlide s1 = currentSlide s"
       "totalSlides s1 = totalSlides s" "timers s1 = timers s @ [n]"
    by blast
  have ok1: "deck_ok s1" and len1: "length (slides s1) = length (slides s)"
    using goToSlide_keeps_ok [OF assms(1), of n] g(1) by (simp_all add: stays_ok_def)
  from flush_timers [OF ok1 g(4)] obtain s2 where
    f: "run (replicate (Suc (length (timers s))) Timeout) s1 = Inr s2" "timers s2 = []"
       "currentSlide s2 = n" "length (slides s2) = length (slides s1)"
       "\<forall>i < length (slides s1).
          active (slides s2 ! i) = (i = nat (n - 1)) \<and>
          exit_left (slides s2 ! i) = False \<and>
          slide_title (slides s2 ! i) = slide_title (slides s1 ! i)"
    by blast
  have idx: "nat (n - 1) < length (slides s2)"
    using deck_okD(1) [OF assms(1)] assms(2,3) f(4) len1 by simp
  have r: "run (replicate (length (timers s1)) Timeout) s1 = Inr s2"
    using f(1) g(4) by simp
  have one: "\<forall>i < length (slides s2). active (slides s2 ! i) \<longleftrightarrow> i = nat (n - 1)"
    using f(4,5) by simp
  show ?thesis
    using g(1,4,2) r f(3,2) f(4) len1 idx one by simp
qed

theorem goToSlide_reaches_target_witness:
  "\<exists>s1 s2. goToSlide 5 (demo_at 1 []) = Inr s1 \<and> timers s1 = [5] \<and> currentSlide s1 = 1 \<and>
      run [Timeout] s1 = Inr s2 \<and> currentSlide s2 = 5 \<and> timers s2 = [] \<and>
      length (slides s2) = 5 \<and>
      \<not> active (slides s2 ! 0) \<and> \<not> active (slides s2 ! 1) \<and> \<not> active (slides s2 ! 2) \<and>
      \<not> active (slides s2 ! 3) \<and> active (slides s2 ! 4)"
proof -
  have ok: "deck_ok (demo_at 1 [])"
    by (simp add: demo_at_ok)
  have lo: "(1::int) \<le> 5" and hi: "5 \<le> totalSlides (demo_at 1 [])"
    by (simp_all add: demo_at_fields)
  from goToSlide_reaches_target [OF ok lo hi] obtain s1 s2 where
    f: "goToSlide 5 (demo_at 1 []) = Inr s1" "timers s1 = timers (demo_at 1 []) @ [5]"
       "currentSlide s1 = currentSlide (demo_at 1 [])"
       "run (replicate (length (timers s1)) Timeout) s1 = Inr s2"
       "currentSlide s2 = 5" "timers s2 = []"
       "length (slides s2) = length (slides (demo_at 1 []))"
       "\<forall>i < length (slides s2). active (slides s2 ! i) \<longleftrightarrow> i = nat (5 - 1)"
    by blast
  have len: "length (slides s2) = 5"
    using f(7) by (simp add: demo_at_fields demo_slides_def)
  have t1: "timers s1 = [5]" and c1: "currentSlide s1 = 1"
    using f(2,3) by (simp_all add: demo_at_fields)
  have r: "run [Timeout] s1 = Inr s2"
    using f(4) t1 by simp
  have "\<not> active (slides s2 ! 0)" "\<not> active (slides s2 ! 1)" "\<not> active (slides s2 ! 2)"
    "\<not> active (slides s2 ! 3)" "active (slides s2 ! 4)"
    using f(8) len by simp_all
  then show ?thesis
    using f(1) t1 c1 r f(5,6) len by blast
qed

section \<open>The projection after a commit\<close>

text \<open>
  Claim C5. When a scheduled callback for \<open>k\<close> runs in a well-formed state, and likewise
  after construction with \<open>k = 1\<close>: the previous button is disabled at opacity 0.3 when
  \<open>k = 1\<close> and enabled at opacity 1 otherwise; the next button is disabled at opacity 0.3
  when \<open>k = totalSlides\<close> and enabled at opacity 1 otherwise; the counter reads
  \<open>k / totalSlides\<close> in decimal; the progress width is \<open>(k / totalSlides) * 100\<close> as the
  code computes it, in double precision: the quotient is rounded to a double, and so is
  its product with 100. On the last slide this is 100 exactly; in between it need not
  be the exact quotient (slide 11 of 20 gives 55.00000000000001).
\<close>

theorem projection_after_commit:
  "(deck_ok s \<and> timers s = k # rest \<longrightarrow>
      (\<exists>s'. timeout s = Inr s' \<and> currentSlide s' = k \<and> totalSlides s' = totalSlides s \<and>
         (disabled (prevBtn s') \<longleftrightarrow> k = 1) \<and>
         opacity (prevBtn s') = (if k = 1 then ''0.3'' else ''1'') \<and>
         (disabled (nextBtn s') \<longleftrightarrow> k = totalSlides s) \<and>
         opacity (nextBtn s') = (if k = totalSlides s then ''0.3'' else ''1'') \<and>
         slideCounter s' = js_toString k @ '' / '' @ js_toString (totalSlides s) \<and>
         progressBar s' = js_mul (js_div k (totalSlides s)) 100 \<and>
         (k = totalSlides s \<longrightarrow> progressBar s' = Num 7036874417766400 (- 46)))) \<and>
   (slides d \<noteq> [] \<longrightarrow>
      (\<exists>s'. SlideDeck d = Inr s' \<and> currentSlide s' = 1 \<and>
         totalSlides s' = int (length (slides d)) \<and>
         disabled (prevBtn s') \<and>
         opacity (prevBtn s') = ''0.3'' \<and>
         (disabled (nextBtn s') \<longleftrightarrow> totalSlides s' = 1) \<and>
         opacity (nextBtn s') = (if totalSlides s' = 1 then ''0.3'' else ''1'') \<and>
         slideCounter s' = js_toString 1 @ '' / '' @ js_toString (totalSlides s') \<and>
         progressBar s' = js_mul (js_div 1 (totalSlides s')) 100))"
proof -
  have committed: "\<exists>s'. timeout s = Inr s' \<and> currentSlide s' = k \<and>
         totalSlides s' = totalSlides s \<and>
         (disabled (prevBtn s') \<longleftrightarrow> k = 1) \<and>
         opacity (prevBtn s') = (if k = 1 then ''0.3'' else ''1'') \<and>
         (disabled (nextBtn s') \<longleftrightarrow> k = totalSlides s) \<and>
         opacity (nextBtn s') = (if k = totalSlides s then ''0.3'' else ''1'') \<and>
         slideCounter s' = js_toString k @ '' / '' @ js_toString (totalSlides s) \<and>
         progressBar s' = js_mul (js_div k (totalSlides s)) 100 \<and>
         (k = totalSlides s \<longrightarrow> progressBar s' = Num 7036874417766400 (- 46))"
    if a: "deck_ok s \<and> timers s = k # rest"
  proof -
    from a have ok: "deck_ok s" and tm: "timers s = k # rest" by simp_all
    from timeout_commit [OF ok tm] obtain s' where
      f: "timeout s = Inr s'" "currentSlide s' = k" "totalSlides s' = totalSlides s"
         "slideCounter s' = js_toString k @ '' / '' @ js_toString (totalSlides s)"
         "progressBar s' = js_mul (js_div k (totalSlides s)) 100"
         "prevBtn s' = (if k = 1 then \<lparr>disabled = True, opacity = ''0.3''\<rparr>
                     else \<lparr>disabled = False, opacity = ''1''\<rparr>)"
         "nextBtn s' = (if k = totalSlides s then \<lparr>disabled = True, opacity = ''0.3''\<rparr>
                     else \<lparr>disabled = False, opacity = ''1''\<rparr>)"
      by blast
    have pos: "0 < k"
      using deck_okD(4) [OF ok] tm by simp
    have b: "(disabled (prevBtn s') \<longleftrightarrow> k = 1)"
         "opacity (prevBtn s') = (if k = 1 then ''0.3'' else ''1'')"
         "(disabled (nextBtn s') \<longleftrightarrow> k = totalSlides s)"
         "opacity (nextBtn s') = (if k = totalSlides s then ''0.3'' else ''1'')"
      using f(6,7) by simp_all
    have last: "k = totalSlides s \<longrightarrow> progressBar s' = Num 7036874417766400 (- 46)"
      using f(5) progress_last_slide [OF pos] by auto
    show ?thesis
      using f(1-5) b last by blast
  qed
  have constructed: "\<exists>s'. SlideDeck d = Inr s' \<and> currentSlide s' = 1 \<and>
         totalSlides s' = int (length (slides d)) \<and>
         disabled (prevBtn s') \<and>
         opacity (prevBtn s') = ''0.3'' \<and>
         (disabled (nextBtn s') \<longleftrightarrow> totalSlides s' = 1) \<and>
         opacity (nextBtn s') = (if totalSlides s' = 1 then ''0.3'' else ''1'') \<and>
         slideCounter s' = js_toString 1 @ '' / '' @ js_toString (totalSlides s') \<and>
         progressBar s' = js_mul (js_div 1 (totalSlides s')) 100"
    if ne: "slides d \<noteq> []"
  proof -
    from SlideDeck_ok [OF ne] obtain s' where
      f: "SlideDeck d = Inr s'" "currentSlide s' = 1"
         "totalSlides s' = int (length (slides d))"
         "slideCounter s' = js_toString 1 @ '' / '' @ js_toString (int (length (slides d)))"
         "progressBar s' = js_mul (js_div 1 (int (length (slides d)))) 100"
         "prevBtn s' = \<lparr>disabled = True, opacity = ''0.3''\<rparr>"
         "nextBtn s' = (if length (slides d) = 1 then \<lparr>disabled = True, opacity = ''0.3''\<rparr>
                          else \<lparr>disabled = False, opacity = ''1''\<rparr>)"
      by blast
    have p: "progressBar s' = js_mul (js_div 1 (totalSlides s')) 100"
      using f(5,3) by simp
    have b: "disabled (prevBtn s')"
         "opacity (prevBtn s') = ''0.3''"
         "(disabled (nextBtn s') \<longleftrightarrow> totalSlides s' = 1)"
         "opacity (nextBtn s') = (if totalSlides s' = 1 then ''0.3'' else ''1'')"
      using f(6,7,3) by auto
    have c: "slideCounter s' = js_toString 1 @ '' / '' @ js_toString (totalSlides s')"
      using f(4,3) by simp
    show ?thesis
      using f(1,2,3) b c p by blast
  qed
  show ?thesis
    using committed constructed by blast
qed

theorem projection_after_commit_witness:
  "(\<exists>s'. timeout (demo_at 1 [5]) = Inr s' \<and> currentSlide s' = 5 \<and>
      disabled (nextBtn s') \<and> opacity (nextBtn s') = ''0.3'' \<and>
      \<not> disabled (prevBtn s') \<and> opacity (prevBtn s') = ''1'' \<and>
      slideCounter s' = ''5 / 5'' \<and> progressBar s' = Num 7036874417766400 (- 46)) \<and>
   (\<exists>s'. SlideDeck demo_dom = Inr s' \<and> currentSlide s' = 1 \<and> totalSlides s' = 5 \<and>
      disabled (prevBtn s') \<and> opacity (prevBtn s') = ''0.3'' \<and>
      \<not> disabled (nextBtn s') \<and> opacity (nextBtn s') = ''1'' \<and>
      slideCounter s' = ''1 / 5'' \<and> progressBar s' = Num 5629499534213120 (- 48)) \<and>
   (\<exists>s'. timeout (plain_deck 20 10 [11]) = Inr s' \<and> currentSlide s' = 11 \<and>
      \<not> disabled (prevBtn s') \<and> \<not> disabled (nextBtn s') \<and>
      slideCounter s' = ''11 / 20'' \<and> progressBar s' = Num 7740561859543041 (- 47)) \<and>
   (\<exists>s'. timeout (plain_deck 3 2 [1]) = Inr s' \<and> currentSlide s' = 1 \<and>
      disabled (prevBtn s') \<and> \<not> disabled (nextBtn s') \<and>
      slideCounter s' = ''1 / 3'' \<and> progressBar s' = Num 4691249611844266 (- 47))"
proof -
  have ok5: "deck_ok (demo_at 1 [5]) \<and> timers (demo_at 1 [5]) = 5 # []"
    by (simp add: demo_at_ok demo_at_fields)
  have ok20: "deck_ok (plain_deck 20 10 [11]) \<and> timers (plain_deck 20 10 [11]) = 11 # []"
    by (simp add: plain_deck_ok plain_deck_fields)
  have ok3: "deck_ok (plain_deck 3 2 [1]) \<and> timers (plain_deck 3 2 [1]) = 1 # []"
    by (simp add: plain_deck_ok plain_deck_fields)
  have ne: "slides demo_dom \<noteq> []"
    by (simp add: demo_dom_def demo_slides_def)
  have len: "int (length (slides demo_dom)) = 5"
    by (simp add: demo_dom_def demo_slides_def)
  have a: "\<exists>s'. timeout (demo_at 1 [5]) = Inr s' \<and> currentSlide s' = 5 \<and>
      disabled (nextBtn s') \<and> opacity (nextBtn s') = ''0.3'' \<and>
      \<not> disabled (prevBtn s') \<and> opacity (prevBtn s') = ''1'' \<and>
      slideCounter s' = ''5 / 5'' \<and> progressBar s' = Num 7036874417766400 (- 46)"
    using projection_after_commit [of "demo_at 1 [5]" 5 "[]" demo_dom] ok5
    by (auto simp add: demo_at_fields js_toString_digits)
  have b: "\<exists>s'. SlideDeck demo_dom = Inr s' \<and> currentSlide s' = 1 \<and> totalSlides s' = 5 \<and>
      disabled (prevBtn s') \<and> opacity (prevBtn s') = ''0.3'' \<and>
      \<not> disabled (nextBtn s') \<and> opacity (nextBtn s') = ''1'' \<and>
      slideCounter s' = ''1 / 5'' \<and> progressBar s' = Num 5629499534213120 (- 48)"
    using projection_after_commit [of "demo_at 1 [5]" 5 "[]" demo_dom] ne len
    by (auto simp add: js_toString_digits progress_examples)
  have c: "\<exists>s'. timeout (plain_deck 20 10 [11]) = Inr s' \<and> currentSlide s' = 11 \<and>
      \<not> disabled (prevBtn s') \<and> \<not> disabled (nextBtn s') \<and>
      slideCounter s' = ''11 / 20'' \<and> progressBar s' = Num 7740561859543041 (- 47)"
    using projection_after_commit [of "plain_deck 20 10 [11]" 11 "[]" demo_dom] ok20
    by (auto simp add: plain_deck_fields js_toString_two_digits progress_examples)
  have d: "\<exists>s'. timeout (plain_deck 3 2 [1]) = Inr s' \<and> currentSlide s' = 1 \<and>
      disabled (prevBtn s') \<and> \<not> disabled (nextBtn s') \<and>
      slideCounter s' = ''1 / 3'' \<and> progressBar s' = Num 4691249611844266 (- 47)"
    using projection_after_commit [of "plain_deck 3 2 [1]" 1 "[]" demo_dom] ok3
    by (auto simp add: plain_deck_fields js_toString_digits progress_examples)
  show ?thesis
    using a b c d by blast
qed

section \<open>The exit treatment\<close>

text \<open>
  Claim C7. At the call, before the scheduled callback runs, a \<open>goToSlide n\<close> that passes
  the guard removes \<open>active\<close> from the slide being left; it adds \<open>exit-left\<close> to that slide
  when the motion is forward (\<open>n > currentSlide\<close>), and on backward motion
  (\<open>n \<le> currentSlide\<close>) leaves the slide's \<open>exit-left\<close> class as it found it. No other slide
  is touched and the current number is not yet changed.
\<close>

theorem goToSlide_exit_treatment:
  assumes "deck_ok s" and "1 \<le> n" and "n \<le> totalSlides s"
  shows "\<exists>s1. goToSlide n s = Inr s1 \<and> currentSlide s1 = currentSlide s \<and>
           timers s1 = timers s @ [n] \<and> length (slides s1) = length (slides s) \<and>
           \<not> active (slides s1 ! nat (currentSlide s - 1)) \<and>
           (n > currentSlide s \<longrightarrow> exit_left (slides s1 ! nat (currentSlide s - 1))) \<and>
           (n \<le> currentSlide s \<longrightarrow>
              exit_left (slides s1 ! nat (currentSlide s - 1)) =
              exit_left (slides s ! nat (currentSlide s - 1))) \<and>
           (\<forall>i < length (slides s). i \<noteq> nat (currentSlide s - 1) \<longrightarrow>
              slides s1 ! i = slides s ! i)"
proof -
  let ?c = "nat (currentSlide s - 1)"
  from goToSlide_ok [OF assms] obtain s1 where
    g: "goToSlide n s = Inr s1" "currentSlide s1 = currentSlide s"
       "timers s1 = timers s @ [n]"
    and sl: "slides s1 = (slides s)[?c := (slides s ! ?c)
               \<lparr>active := False,
                exit_left := (n > currentSlide s \<or> exit_left (slides s ! ?c))\<rparr>]"
    by blast
  have idx: "?c < length (slides s)"
    using deck_okD [OF assms(1)] by simp
  have len: "length (slides s1) = length (slides s)"
    using sl by simp
  have act: "\<not> active (slides s1 ! ?c)"
    using sl idx by simp
  have fwd: "n > currentSlide s \<longrightarrow> exit_left (slides s1 ! ?c)"
    using sl idx by simp
  have bwd: "n \<le> currentSlide s \<longrightarrow> exit_left (slides s1 ! ?c) = exit_left (slides s ! ?c)"
    using sl idx by simp
  have others: "\<forall>i < length (slides s). i \<noteq> ?c \<longrightarrow> slides s1 ! i = slides s ! i"
    using sl by simp
  show ?thesis
    using g len act fwd bwd others by blast
qed

theorem goToSlide_exit_treatment_witness:
  "(\<exists>s1. goToSlide 4 (demo_at 3 []) = Inr s1 \<and> currentSlide s1 = 3 \<and> timers s1 = [4] \<and>
      \<not> active (slides s1 ! 2) \<and> exit_left (slides s1 ! 2) \<and>
      slides s1 ! 3 = demo_slides 3 ! 3) \<and>
   (\<exists>s1. goToSlide 2 (demo_at 3 []) = Inr s1 \<and> currentSlide s1 = 3 \<and> timers s1 = [2] \<and>
      \<not> active (slides s1 ! 2) \<and> \<not> exit_left (slides s1 ! 2) \<and>
      slides s1 ! 1 = demo_slides 3 ! 1)"
proof -
  have ok: "deck_ok (demo_at 3 [])"
    by (simp add: demo_at_ok)
  have r4: "(1::int) \<le> 4" "4 \<le> totalSlides (demo_at 3 [])"
    and r2: "(1::int) \<le> 2" "2 \<le> totalSlides (demo_at 3 [])"
    by (simp_all add: demo_at_fields)
  have fwd: "\<exists>s1. goToSlide 4 (demo_at 3 []) = Inr s1 \<and> currentSlide s1 = 3 \<and>
      timers s1 = [4] \<and> \<not> active (slides s1 ! 2) \<and> exit_left (slides s1 ! 2) \<and>
      slides s1 ! 3 = demo_slides 3 ! 3"
    using goToSlide_exit_treatment [OF ok r4]
    by (auto simp add: demo_at_fields demo_slides_def)
  have bwd: "\<exists>s1. goToSlide 2 (demo_at 3 []) = Inr s1 \<and> currentSlide s1 = 3 \<and>
      timers s1 = [2] \<and> \<not> active (slides s1 ! 2) \<and> \<not> exit_left (slides s1 ! 2) \<and>
      slides s1 ! 1 = demo_slides 3 ! 1"
    using goToSlide_exit_treatment [OF ok r2]
    by (auto simp add: demo_at_fields demo_slides_def)
  show ?thesis
    using fwd bwd by blast
qed

section \<open>Going to the current slide\<close>

text \<open>
  Claim C10. \<open>goToSlide\<close> of the current number, in a well-formed state, is not a no-op.
  The call passes the guard and changes the state: it schedules a callback and removes
  \<open>active\<close> from the current slide, without the exit treatment (the motion counts as
  backward); the document title is not touched at the call. After the callbacks
  scheduled earlier have run (none in an idle deck), in the state \<open>sm\<close>, the callback of
  this call runs: the current number is the same as before, the same slide is the only
  active one, and the whole projection has been written again from that number: the
  counter, the progress width (the double \<open>(n / totalSlides) * 100\<close>), both buttons, and
  the document title when the slide has a title element; without one the title stays
  as it was in \<open>sm\<close>.
\<close>

theorem goToSlide_current_not_noop:
  assumes "deck_ok s" and "n = currentSlide s"
  shows "\<exists>s1 sm s2. goToSlide n s = Inr s1 \<and> s1 \<noteq> s \<and> timers s1 = timers s @ [n] \<and>
           title s1 = title s \<and>
           \<not> active (slides s1 ! nat (n - 1)) \<and>
           exit_left (slides s1 ! nat (n - 1)) = exit_left (slides s ! nat (n - 1)) \<and>
           run (replicate (length (timers s)) Timeout) s1 = Inr sm \<and> timers sm = [n] \<and>
           (timers s = [] \<longrightarrow> sm = s1) \<and>
           timeout sm = Inr s2 \<and>
           run (replicate (length (timers s1)) Timeout) s1 = Inr s2 \<and>
           currentSlide s2 = n \<and> nat (n - 1) < length (slides s2) \<and>
           (\<forall>i < length (slides s2). active (slides s2 ! i) \<longleftrightarrow> i = nat (n - 1)) \<and>
           slideCounter s2 = js_toString n @ '' / '' @ js_toString (totalSlides s) \<and>
           progressBar s2 = js_mul (js_div n (totalSlides s)) 100 \<and>
           prevBtn s2 = (if n = 1 then \<lparr>disabled = True, opacity = ''0.3''\<rparr>
                         else \<lparr>disabled = False, opacity = ''1''\<rparr>) \<and>
           nextBtn s2 = (if n = totalSlides s then \<lparr>disabled = True, opacity = ''0.3''\<rparr>
                         else \<lparr>disabled = False, opacity = ''1''\<rparr>) \<and>
           title s2 = (case slide_title (slides s ! nat (n - 1)) of
                         None \<Rightarrow> title sm
                       | Some t \<Rightarrow> t @ '' - GMC Acadia Korea Market'')"
proof -
  let ?c = "nat (n - 1)"
  have r: "1 \<le> n" "n \<le> totalSlides s"
    using deck_okD [OF assms(1)] assms(2) by simp_all
  from goToSlide_ok [OF assms(1) r] obtain s1 where
    g: "goToSlide n s = Inr s1" "totalSlides s1 = totalSlides s"
       "timers s1 = timers s @ [n]" "title s1 = title s"
    and sl: "slides s1 = (slides s)[nat (currentSlide s - 1) :=
               (slides s ! nat (currentSlide s - 1))
               \<lparr>active := False,
                exit_left := (n > currentSlide s \<or> exit_left (slides s ! nat (currentSlide s - 1)))\<rparr>]"
    by blast
  have idx: "?c < length (slides s)"
    using deck_okD [OF assms(1)] assms(2) by simp
  have ne: "s1 \<noteq> s"
    using g(3) by auto
  have act: "\<not> active (slides s1 ! ?c)"
    and ex: "exit_left (slides s1 ! ?c) = exit_left (slides s ! ?c)"
    and ti1: "slide_title (slides s1 ! ?c) = slide_title (slides s ! ?c)"
    using sl idx assms(2) by simp_all
  have ok1: "deck_ok s1" and len1: "length (slides s1) = length (slides s)"
    using goToSlide_keeps_ok [OF assms(1), of n] g(1) by (simp_all add: stays_ok_def)
  from run_pending [OF ok1 g(3)] obtain sm where
    m: "run (replicate (length (timers s)) Timeout) s1 = Inr sm" "deck_ok sm"
       "timers sm = [n]" "totalSlides sm = totalSlides s1"
       "length (slides sm) = length (slides s1)"
       "\<forall>i < length (slides s1). slide_title (slides sm ! i) = slide_title (slides s1 ! i)"
    by blast
  have idle: "timers s = [] \<longrightarrow> sm = s1"
    using m(1) by auto
  have tim: "slide_title (slides sm ! ?c) = slide_title (slides s ! ?c)"
    using m(6) ti1 idx len1 by simp
  have tm: "timers sm = n # []"
    using m(3) by simp
  from timeout_commit [OF m(2) tm] obtain s2 where
    f: "timeout sm = Inr s2" "currentSlide s2 = n" "length (slides s2) = length (slides sm)"
       "\<forall>i < length (slides sm).
          active (slides s2 ! i) = (i = nat (n - 1)) \<and>
          exit_left (slides s2 ! i) = False \<and>
          slide_title (slides s2 ! i) = slide_title (slides sm ! i)"
    and ui: "slideCounter s2 = js_toString n @ '' / '' @ js_toString (totalSlides sm)"
       "progressBar s2 = js_mul (js_div n (totalSlides sm)) 100"
       "prevBtn s2 = (if n = 1 then \<lparr>disabled = True, opacity = ''0.3''\<rparr>
                   else \<lparr>disabled = False, opacity = ''1''\<rparr>)"
       "nextBtn s2 = (if n = totalSlides sm then \<lparr>disabled = True, opacity = ''0.3''\<rparr>
                   else \<lparr>disabled = False, opacity = ''1''\<rparr>)"
       "title s2 = (case slide_title (slides sm ! nat (n - 1)) of None \<Rightarrow> title sm
                 | Some t \<Rightarrow> t @ '' - GMC Acadia Korea Market'')"
    by blast
  have all: "run (replicate (length (timers s1)) Timeout) s1 = Inr s2"
  proof -
    have "replicate (length (timers s1)) Timeout =
        replicate (length (timers s)) Timeout @ [Timeout]"
      using g(3) by (simp add: replicate_append_same)
    then show ?thesis
      using m(1) f(1) by (simp add: run_append)
  qed
  have idx2: "?c < length (slides s2)"
    using idx f(3) m(5) len1 by simp
  have one: "\<forall>i < length (slides s2). active (slides s2 ! i) \<longleftrightarrow> i = ?c"
    using f(3,4) by simp
  have tot: "totalSlides sm = totalSlides s"
    using m(4) g(2) by simp
  have ui': "slideCounter s2 = js_toString n @ '' / '' @ js_toString (totalSlides s)"
       "progressBar s2 = js_mul (js_div n (totalSlides s)) 100"
       "prevBtn s2 = (if n = 1 then \<lparr>disabled = True, opacity = ''0.3''\<rparr>
                   else \<lparr>disabled = False, opacity = ''1''\<rparr>)"
       "nextBtn s2 = (if n = totalSlides s then \<lparr>disabled = True, opacity = ''0.3''\<rparr>
                   else \<lparr>disabled = False, opacity = ''1''\<rparr>)"
    using ui(1-4) unfolding tot by simp_all
  have ti2: "title s2 = (case slide_title (slides s ! ?c) of
                         None \<Rightarrow> title sm
                       | Some t \<Rightarrow> t @ '' - GMC Acadia Korea Market'')"
    using ui(5) unfolding tim by simp
  show ?thesis
    using g(1) ne g(3,4) act ex m(1,3) idle f(1) all f(2) idx2 one ui' ti2 by blast
qed

theorem goToSlide_current_not_noop_witness:
  "(\<exists>s1 s2. goToSlide 3 (demo_at 3 []) = Inr s1 \<and> s1 \<noteq> demo_at 3 [] \<and> timers s1 = [3] \<and>
      title s1 = ''Deck'' \<and> \<not> active (slides s1 ! 2) \<and> \<not> exit_left (slides s1 ! 2) \<and>
      timeout s1 = Inr s2 \<and> run [Timeout] s1 = Inr s2 \<and>
      currentSlide s2 = 3 \<and> active (slides s2 ! 2) \<and> \<not> active (slides s2 ! 0) \<and>
      slideCounter s2 = ''3 / 5'' \<and> progressBar s2 = Num 8444249301319680 (- 47) \<and>
      \<not> disabled (prevBtn s2) \<and> \<not> disabled (nextBtn s2) \<and>
      title s2 = ''Market - GMC Acadia Korea Market'') \<and>
   (\<exists>s1 s2. goToSlide 11 (plain_deck 20 11 []) = Inr s1 \<and> timers s1 = [11] \<and>
      timeout s1 = Inr s2 \<and> currentSlide s2 = 11 \<and>
      slideCounter s2 = ''11 / 20'' \<and> progressBar s2 = Num 7740561859543041 (- 47) \<and>
      title s2 = ''Deck'')"
proof -
  have ok: "deck_ok (demo_at 3 [])"
    by (simp add: demo_at_ok)
  have eq: "3 = currentSlide (demo_at 3 [])"
    by (simp add: demo_at_fields)
  from goToSlide_current_not_noop [OF ok eq] obtain s1 sm s2 where
    f: "goToSlide 3 (demo_at 3 []) = Inr s1" "s1 \<noteq> demo_at 3 []"
       "timers s1 = timers (demo_at 3 []) @ [3]"
       "title s1 = title (demo_at 3 [])"
       "\<not> active (slides s1 ! nat (3 - 1))"
       "exit_left (slides s1 ! nat (3 - 1)) = exit_left (slides (demo_at 3 []) ! nat (3 - 1))"
       "timers (demo_at 3 []) = [] \<longrightarrow> sm = s1"
       "timeout sm = Inr s2"
       "run (replicate (length (timers s1)) Timeout) s1 = Inr s2"
       "currentSlide s2 = 3" "nat (3 - 1) < length (slides s2)"
       "\<forall>i < length (slides s2). active (slides s2 ! i) \<longleftrightarrow> i = nat (3 - 1)"
       "slideCounter s2 = js_toString 3 @ '' / '' @ js_toString (totalSlides (demo_at 3 []))"
       "progressBar s2 = js_mul (js_div 3 (totalSlides (demo_at 3 []))) 100"
       "prevBtn s2 = (if (3::int) = 1 then \<lparr>disabled = True, opacity = ''0.3''\<rparr>
                         else \<lparr>disabled = False, opacity = ''1''\<rparr>)"
       "nextBtn s2 = (if 3 = totalSlides (demo_at 3 []) then \<lparr>disabled = True, opacity = ''0.3''\<rparr>
                         else \<lparr>disabled = False, opacity = ''1''\<rparr>)"
       "title s2 = (case slide_title (slides (demo_at 3 []) ! nat (3 - 1)) of
                         None \<Rightarrow> title sm
                       | Some t \<Rightarrow> t @ '' - GMC Acadia Korea Market'')"
    by blast
  have sm: "sm = s1"
    using f(7) by (simp add: demo_at_fields)
  have t1: "timers s1 = [3]" and ti1: "title s1 = ''Deck''"
    using f(3,4) by (simp_all add: demo_at_def)
  have r: "run [Timeout] s1 = Inr s2"
    using f(9) t1 by simp
  have a1: "\<not> active (slides s1 ! 2)" "\<not> exit_left (slides s1 ! 2)"
    using f(5,6) by (simp_all add: demo_at_fields demo_slides_def)
  have pos: "0 < length (slides s2)"
    using f(11) by (cases "slides s2") simp_all
  have "active (slides s2 ! 0) \<longleftrightarrow> (0::nat) = nat (3 - 1)"
    using f(12) pos by blast
  then have a3: "\<not> active (slides s2 ! 0)"
    by simp
  have a2: "active (slides s2 ! 2)"
    using f(11,12) by simp
  have ui: "slideCounter s2 = ''3 / 5''" "progressBar s2 = Num 8444249301319680 (- 47)"
    "\<not> disabled (prevBtn s2)" "\<not> disabled (nextBtn s2)"
    using f(13,14,15,16) by (simp_all add: demo_at_fields js_toString_digits progress_examples)
  have ti2: "title s2 = ''Market - GMC Acadia Korea Market''"
    using f(17) by (simp add: demo_at_fields demo_slides_def)
  have first: "\<exists>s1 s2. goToSlide 3 (demo_at 3 []) = Inr s1 \<and> s1 \<noteq> demo_at 3 [] \<and>
      timers s1 = [3] \<and>
      title s1 = ''Deck'' \<and> \<not> active (slides s1 ! 2) \<and> \<not> exit_left (slides s1 ! 2) \<and>
      timeout s1 = Inr s2 \<and> run [Timeout] s1 = Inr s2 \<and>
      currentSlide s2 = 3 \<and> active (slides s2 ! 2) \<and> \<not> active (slides s2 ! 0) \<and>
      slideCounter s2 = ''3 / 5'' \<and> progressBar s2 = Num 8444249301319680 (- 47) \<and>
      \<not> disabled (prevBtn s2) \<and> \<not> disabled (nextBtn s2) \<and>
      title s2 = ''Market - GMC Acadia Korea Market''"
    using f(1,2) t1 ti1 a1 f(8) r f(10) a2 a3 ui ti2 unfolding sm by blast
  have ok': "deck_ok (plain_deck 20 11 [])"
    by (simp add: plain_deck_ok)
  have eq': "11 = currentSlide (plain_deck 20 11 [])"
    by (simp add: plain_deck_fields)
  from goToSlide_current_not_noop [OF ok' eq'] obtain u1 um u2 where
    h: "goToSlide 11 (plain_deck 20 11 []) = Inr u1"
       "timers u1 = timers (plain_deck 20 11 []) @ [11]"
       "title u1 = title (plain_deck 20 11 [])"
       "timers (plain_deck 20 11 []) = [] \<longrightarrow> um = u1"
       "timeout um = Inr u2" "currentSlide u2 = 11"
       "slideCounter u2 = js_toString 11 @ '' / '' @ js_toString (totalSlides (plain_deck 20 11 []))"
       "progressBar u2 = js_mul (js_div 11 (totalSlides (plain_deck 20 11 []))) 100"
       "title u2 = (case slide_title (slides (plain_deck 20 11 []) ! nat (11 - 1)) of
                         None \<Rightarrow> title um
                       | Some t \<Rightarrow> t @ '' - GMC Acadia Korea Market'')"
    by blast
  have um: "um = u1"
    using h(4) by (simp add: plain_deck_fields)
  have v1: "timers u1 = [11]" and vt: "title u1 = ''Deck''"
    using h(2,3) by (simp_all add: plain_deck_fields)
  have none: "slide_title (slides (plain_deck 20 11 []) ! nat (11 - 1)) = None"
    by (simp add: plain_deck_fields plain_slides_def)
  have vui: "slideCounter u2 = ''11 / 20''" "progressBar u2 = Num 7740561859543041 (- 47)"
    using h(7,8) by (simp_all add: plain_deck_fields js_toString_two_digits progress_examples)
  have vt2: "title u2 = ''Deck''"
    using h(9) none um vt by simp
  have second: "\<exists>s1 s2. goToSlide 11 (plain_deck 20 11 []) = Inr s1 \<and> timers s1 = [11] \<and>
      timeout s1 = Inr s2 \<and> currentSlide s2 = 11 \<and>
      slideCounter s2 = ''11 / 20'' \<and> progressBar s2 = Num 7740561859543041 (- 47) \<and>
      title s2 = ''Deck''"
    using h(1) v1 h(5,6) vui vt2 unfolding um by blast
  show ?thesis
    using first second by blast
qed

section \<open>Where the current number is assigned\<close>

lemma updateUI_frame:
  "updateUI s = Inr s' \<Longrightarrow>
     currentSlide s' = currentSlide s \<and> totalSlides s' = totalSlides s \<and> timers s' = timers s"
  by (auto simp add: updateUI_def Let_def updateButtonStates_fields split: option.splits)

lemma commit_frame:
  assumes "commit n s = Inr s'"
  shows "currentSlide s' = n \<and> totalSlides s' = totalSlides s \<and> timers s' = timers s"
proof (cases "item (map (\<lambda>sl. sl\<lparr>active := False, exit_left := False\<rparr>) (slides s)) (n - 1)")
  case None
  then show ?thesis using assms by (simp add: commit_def)
next
  case (Some el)
  then have "updateUI
      (s\<lparr>slides := (map (\<lambda>sl. sl\<lparr>active := False, exit_left := False\<rparr>) (slides s))
             [nat (n - 1) := el\<lparr>active := True\<rparr>],
         currentSlide := n\<rparr>) = Inr s'"
    using assms by (simp add: commit_def)
  from updateUI_frame [OF this] show ?thesis by simp
qed

lemma goToSlide_frame:
  "goToSlide n s = Inr s' \<Longrightarrow>
     currentSlide s' = currentSlide s \<and> totalSlides s' = totalSlides s \<and>
     (timers s' = timers s \<or> (1 \<le> n \<and> n \<le> totalSlides s \<and> timers s' = timers s @ [n]))"
  by (auto simp add: goToSlide_def Let_def split: if_splits option.splits)

lemma timeout_frame:
  assumes "timeout s = Inr s'"
  shows "(timers s = [] \<and> s' = s) \<or>
         (timers s \<noteq> [] \<and> currentSlide s' = hd (timers s) \<and> timers s' = tl (timers s) \<and>
          totalSlides s' = totalSlides s)"
proof (cases "timers s")
  case Nil
  then show ?thesis using assms by (simp add: timeout_def)
next
  case (Cons n rest)
  then have "commit n (s\<lparr>timers := rest\<rparr>) = Inr s'"
    using assms by (simp add: timeout_def)
  from commit_frame [OF this] show ?thesis using Cons by simp
qed

text \<open>
  What one event can do to the current number and to the pending callbacks, in any
  state.
\<close>

lemma step_frame:
  assumes "step e s = Inr s'"
  shows "(currentSlide s' \<noteq> currentSlide s \<longrightarrow>
            e = Timeout \<and> timers s \<noteq> [] \<and> currentSlide s' = hd (timers s)) \<and>
         set (timers s') \<subseteq> set (timers s) \<union> {n. 1 \<le> n \<and> n \<le> totalSlides s}"
proof (cases e)
  case NextSlide
  then show ?thesis
    using assms goToSlide_frame [of "currentSlide s + 1" s s']
    by (auto simp add: nextSlide_def split: if_splits)
next
  case PreviousSlide
  then show ?thesis
    using assms goToSlide_frame [of "currentSlide s - 1" s s']
    by (auto simp add: previousSlide_def split: if_splits)
next
  case (GoToSlide n)
  then show ?thesis
    using assms goToSlide_frame [of n s s'] by auto
next
  case (HandleSwipe a b)
  then have "s' = s \<or> goToSlide (currentSlide s + 1) s = Inr s'
      \<or> goToSlide (currentSlide s - 1) s = Inr s'"
    using assms
    by (auto simp add: handleSwipe_def Let_def nextSlide_def previousSlide_def split: if_splits)
  then show ?thesis
    using goToSlide_frame [of "currentSlide s + 1" s s']
          goToSlide_frame [of "currentSlide s - 1" s s']
    by auto
next
  case (KeyDown k)
  then have "s' = s \<or> goToSlide (currentSlide s + 1) s = Inr s'
      \<or> goToSlide (currentSlide s - 1) s = Inr s'
      \<or> goToSlide 1 s = Inr s' \<or> goToSlide (totalSlides s) s = Inr s'"
    using assms
    by (auto simp add: keydown_def nextSlide_def previousSlide_def split: if_splits)
  then show ?thesis
    using goToSlide_frame [of "currentSlide s + 1" s s']
          goToSlide_frame [of "currentSlide s - 1" s s']
          goToSlide_frame [of 1 s s'] goToSlide_frame [of "totalSlides s" s s']
    by auto
next
  case Timeout
  then have "timeout s = Inr s'" using assms by simp
  from timeout_frame [OF this] show ?thesis
    using Timeout by (auto dest: list.set_sel(2))
qed

text \<open>Every state a constructed deck reaches is well-formed.\<close>

lemma reachable_ok:
  assumes "SlideDeck d = Inr s0" and "run es s0 = Inr s"
  shows "deck_ok s"
proof -
  have "slides d \<noteq> []"
    using assms(1) SlideDeck_empty [of d] by auto
  from SlideDeck_ok [OF this] have "deck_ok s0"
    using assms(1) by auto
  from run_keeps_ok [OF this, of es] show ?thesis
    using assms(2) by (simp add: stays_ok_def)
qed

text \<open>
  Claim C3. On a document with at least one slide the constructor succeeds with the
  current number 1, and after every sequence of events (calls of \<open>nextSlide\<close>,
  \<open>previousSlide\<close>, \<open>goToSlide\<close>, \<open>handleSwipe\<close>, key presses and runs of scheduled
  callbacks, in any interleaving) no error has been raised and the current number lies
  between 1 and \<open>totalSlides\<close>. In any state, an event that changes the current number
  is the run of a scheduled callback, and the new number is the one the callback
  carries; the numbers an event adds to the pending callbacks lie between 1 and
  \<open>totalSlides\<close>, that is, they have passed the guard of \<open>goToSlide\<close>.
\<close>

theorem currentSlide_in_range:
  "(slides d \<noteq> [] \<longrightarrow>
      (\<exists>s0. SlideDeck d = Inr s0 \<and> currentSlide s0 = 1 \<and>
         totalSlides s0 = int (length (slides d)) \<and> timers s0 = [] \<and>
         (\<forall>es. \<exists>s. run es s0 = Inr s \<and> 1 \<le> currentSlide s \<and>
            currentSlide s \<le> totalSlides s \<and> totalSlides s = totalSlides s0))) \<and>
   (step e s = Inr s' \<and> currentSlide s' \<noteq> currentSlide s \<longrightarrow>
      e = Timeout \<and> timers s \<noteq> [] \<and> currentSlide s' = hd (timers s)) \<and>
   (step e s = Inr s' \<longrightarrow>
      set (timers s') \<subseteq> set (timers s) \<union> {n. 1 \<le> n \<and> n \<le> totalSlides s})"
proof -
  have constructed: "\<exists>s0. SlideDeck d = Inr s0 \<and> currentSlide s0 = 1 \<and>
         totalSlides s0 = int (length (slides d)) \<and> timers s0 = [] \<and>
         (\<forall>es. \<exists>s. run es s0 = Inr s \<and> 1 \<le> currentSlide s \<and>
            currentSlide s \<le> totalSlides s \<and> totalSlides s = totalSlides s0)"
    if ne: "slides d \<noteq> []"
  proof -
    from SlideDeck_ok [OF ne] obtain s0 where
      c: "SlideDeck d = Inr s0" "deck_ok s0" "currentSlide s0 = 1" "timers s0 = []"
         "totalSlides s0 = int (length (slides d))"
      by blast
    have "\<exists>s. run es s0 = Inr s \<and> 1 \<le> currentSlide s \<and>
              currentSlide s \<le> totalSlides s \<and> totalSlides s = totalSlides s0" for es
    proof -
      from run_keeps_ok [OF c(2), of es] obtain s where
        r: "run es s0 = Inr s" "deck_ok s" "totalSlides s = totalSlides s0"
        unfolding stays_ok_def by blast
      show ?thesis
        using r deck_okD(2,3) [OF r(2)] by blast
    qed
    then show ?thesis
      using c by blast
  qed
  have assigned: "e = Timeout \<and> timers s \<noteq> [] \<and> currentSlide s' = hd (timers s)"
    if "step e s = Inr s' \<and> currentSlide s' \<noteq> currentSlide s"
    using that step_frame [of e s s'] by blast
  have scheduled: "set (timers s') \<subseteq> set (timers s) \<union> {n. 1 \<le> n \<and> n \<le> totalSlides s}"
    if "step e s = Inr s'"
    using that step_frame [of e s s'] by blast
  show ?thesis
    using constructed assigned scheduled by blast
qed

theorem currentSlide_in_range_witness:
  "(\<exists>s0. SlideDeck demo_dom = Inr s0 \<and> currentSlide s0 = 1 \<and> totalSlides s0 = 5 \<and>
      (\<exists>s. run [KeyDown ''End'', Timeout, NextSlide, HandleSwipe 100 200, GoToSlide 0,
                 PreviousSlide, Timeout, Timeout] s0 = Inr s \<and>
           1 \<le> currentSlide s \<and> currentSlide s \<le> 5)) \<and>
   (\<exists>s'. step (GoToSlide 4) (demo_at 3 []) = Inr s' \<and> currentSlide s' = 3 \<and>
      set (timers s') \<subseteq> {n. 1 \<le> n \<and> n \<le> 5})"
proof -
  let ?es = "[KeyDown ''End'', Timeout, NextSlide, HandleSwipe 100 200, GoToSlide 0,
              PreviousSlide, Timeout, Timeout]"
  have ne: "slides demo_dom \<noteq> []" and len: "int (length (slides demo_dom)) = 5"
    by (simp_all add: demo_dom_def demo_slides_def)
  from currentSlide_in_range [of demo_dom] ne obtain s0 where
    c: "SlideDeck demo_dom = Inr s0" "currentSlide s0 = 1"
       "totalSlides s0 = int (length (slides demo_dom))"
       "\<forall>es. \<exists>s. run es s0 = Inr s \<and> 1 \<le> currentSlide s \<and>
            currentSlide s \<le> totalSlides s \<and> totalSlides s = totalSlides s0"
    by blast
  from c(4) obtain s where
    r: "run ?es s0 = Inr s" "1 \<le> currentSlide s" "currentSlide s \<le> totalSlides s"
       "totalSlides s = totalSlides s0"
    by blast
  have first: "\<exists>s0. SlideDeck demo_dom = Inr s0 \<and> currentSlide s0 = 1 \<and> totalSlides s0 = 5 \<and>
      (\<exists>s. run ?es s0 = Inr s \<and> 1 \<le> currentSlide s \<and> currentSlide s \<le> 5)"
    using c(1,2,3) r len by auto
  have ok: "deck_ok (demo_at 3 [])"
    by (simp add: demo_at_ok)
  from step_keeps_ok [OF ok, of "GoToSlide 4"] obtain s' where
    st: "step (GoToSlide 4) (demo_at 3 []) = Inr s'"
    unfolding stays_ok_def by blast
  have "currentSlide s' = currentSlide (demo_at 3 [])"
    using currentSlide_in_range [of demo_dom "GoToSlide 4" "demo_at 3 []" s'] st by auto
  moreover have "set (timers s') \<subseteq> set (timers (demo_at 3 [])) \<union>
      {n. 1 \<le> n \<and> n \<le> totalSlides (demo_at 3 [])}"
    using currentSlide_in_range [of demo_dom "GoToSlide 4" "demo_at 3 []" s'] st by blast
  ultimately have second: "\<exists>s'. step (GoToSlide 4) (demo_at 3 []) = Inr s' \<and>
      currentSlide s' = 3 \<and> set (timers s') \<subseteq> {n. 1 \<le> n \<and> n \<le> 5}"
    using st by (auto simp add: demo_at_fields)
  show ?thesis
    using first second by blast
qed

section \<open>Errors\<close>

text \<open>
  Claim C8, as the code has it. The claim that no operation raises for any input fails
  on a document without slides: there the constructor raises a \<^verbatim>\<open>TypeError\<close> in its
  first \<open>updateUI\<close>, at the title lookup on the missing first slide.
\<close>

theorem SlideDeck_empty_throws:
  "SlideDeck empty_dom = Inl TypeError"
  by (simp add: SlideDeck_empty empty_dom_def)

text \<open>
  Claim C8, amended. On a document with at least one slide nothing raises: the
  constructor succeeds, and so does every sequence of events after it, whatever slide
  numbers, keys and swipe coordinates they carry. A slide without a title element is
  not an error: construction and the run of a scheduled callback then leave the
  document title as it was.
\<close>

theorem no_error_on_nonempty_deck:
  "(slides d \<noteq> [] \<longrightarrow>
      (\<exists>s0. SlideDeck d = Inr s0 \<and> (\<forall>es. \<exists>s. run es s0 = Inr s) \<and>
         (slide_title (slides d ! 0) = None \<longrightarrow> title s0 = title d))) \<and>
   (deck_ok s \<longrightarrow> (\<exists>s'. step e s = Inr s')) \<and>
   (deck_ok s \<and> timers s = n # rest \<and> slide_title (slides s ! nat (n - 1)) = None \<longrightarrow>
      (\<exists>s'. timeout s = Inr s' \<and> title s' = title s))"
proof -
  have constructed: "\<exists>s0. SlideDeck d = Inr s0 \<and> (\<forall>es. \<exists>s. run es s0 = Inr s) \<and>
         (slide_title (slides d ! 0) = None \<longrightarrow> title s0 = title d)"
    if ne: "slides d \<noteq> []"
  proof -
    from SlideDeck_ok [OF ne] obtain s0 where
      c: "SlideDeck d = Inr s0" "deck_ok s0"
         "title s0 = (case slide_title (slides d ! 0) of None \<Rightarrow> title d
                         | Some t \<Rightarrow> t @ '' - GMC Acadia Korea Market'')"
      by blast
    have total: "\<forall>es. \<exists>s. run es s0 = Inr s"
    proof
      fix es
      show "\<exists>s. run es s0 = Inr s"
        using run_keeps_ok [OF c(2), of es] unfolding stays_ok_def by blast
    qed
    have skipped: "slide_title (slides d ! 0) = None \<longrightarrow> title s0 = title d"
      using c(3) by simp
    show ?thesis
      using c(1) total skipped by (intro exI [of _ s0] conjI)
  qed
  have stepped: "\<exists>s'. step e s = Inr s'" if "deck_ok s"
    using step_keeps_ok [OF that, of e] unfolding stays_ok_def by blast
  have untitled: "\<exists>s'. timeout s = Inr s' \<and> title s' = title s"
    if a: "deck_ok s \<and> timers s = n # rest \<and> slide_title (slides s ! nat (n - 1)) = None"
  proof -
    from a have ok: "deck_ok s" and tm: "timers s = n # rest"
      and nt: "slide_title (slides s ! nat (n - 1)) = None"
      by simp_all
    from timeout_commit [OF ok tm] obtain s' where
      "timeout s = Inr s'"
      "title s' = (case slide_title (slides s ! nat (n - 1)) of None \<Rightarrow> title s
                   | Some t \<Rightarrow> t @ '' - GMC Acadia Korea Market'')"
      by blast
    then show ?thesis
      using nt by simp
  qed
  show ?thesis
    using constructed stepped untitled by (intro conjI impI)
qed

theorem no_error_on_nonempty_deck_witness:
  "(\<exists>s0. SlideDeck demo_dom = Inr s0 \<and>
      (\<exists>s. run [GoToSlide 0, GoToSlide 6, GoToSlide (- 3), KeyDown ''x'', HandleSwipe 0 1000,
                 Timeout, Timeout, PreviousSlide, PreviousSlide, Timeout] s0 = Inr s)) \<and>
   (\<exists>s'. step (GoToSlide 99) (demo_at 5 [2]) = Inr s') \<and>
   (\<exists>s'. timeout (demo_at 5 [2]) = Inr s' \<and> title s' = ''Deck'')"
proof -
  have ne: "slides demo_dom \<noteq> []"
    by (simp add: demo_dom_def demo_slides_def)
  have ok: "deck_ok (demo_at 5 [2])"
    by (simp add: demo_at_ok)
  have pre: "deck_ok (demo_at 5 [2]) \<and> timers (demo_at 5 [2]) = 2 # [] \<and>
      slide_title (slides (demo_at 5 [2]) ! nat (2 - 1)) = None"
    using ok by (simp add: demo_at_fields demo_slides_def)
  have t: "title (demo_at 5 [2]) = ''Deck''"
    by (simp add: demo_at_def)
  note th = no_error_on_nonempty_deck [of demo_dom "demo_at 5 [2]" "GoToSlide 99" 2 "[]"]
  have a: "\<exists>s0. SlideDeck demo_dom = Inr s0 \<and>
      (\<exists>s. run [GoToSlide 0, GoToSlide 6, GoToSlide (- 3), KeyDown ''x'', HandleSwipe 0 1000,
                 Timeout, Timeout, PreviousSlide, PreviousSlide, Timeout] s0 = Inr s)"
    using th ne by blast
  have b: "\<exists>s'. step (GoToSlide 99) (demo_at 5 [2]) = Inr s'"
    using th ok by blast
  have c: "\<exists>s'. timeout (demo_at 5 [2]) = Inr s' \<and> title s' = ''Deck''"
    using th pre t by auto
  show ?thesis
    using a b c by blast
qed

end
